theory Spec2Isabelle
  imports Complex_Main "HOL-Library.Sublist" "HOL-Library.AList"
begin

section \<open>HangAI: data model\<close>

text \<open>
  A shallow embedding of \<^verbatim>\<open>hangai.py\<close>. Python exceptions are values of
  type \<open>error\<close>; a function that can raise returns \<open>error + 'a\<close>, with \<open>Inl\<close>
  the exception. Python floats are modelled as \<open>real\<close>: the program only compares
  them, rounds them to four decimals and hands them to libraries.
\<close>

datatype error = KeyError | AttributeError | OSError | EvalError | MarkupError

text \<open>
  A history entry is the dict built in \<^verbatim>\<open>main\<close>:
  \<^verbatim>\<open>{"input": ..., "detected_moods": ..., "timestamp": ...}\<close>.
\<close>

record history_entry =
  entry_input :: string
  detected_moods :: "string list"
  timestamp :: string

text \<open>
  An entry of a favorites list. The program writes
  \<^verbatim>\<open>{"name": ..., "tags": ...}\<close>; a profile read from disk may hold other
  JSON values there, which the program tells apart with \<^verbatim>\<open>isinstance(fav, dict)\<close>,
  and a dict there may lack the key \<^verbatim>\<open>name\<close>: \<open>Fav None t\<close> is such a dict, on which
  \<^verbatim>\<open>fav["name"]\<close> raises \<open>KeyError\<close> and \<^verbatim>\<open>fav.get("name")\<close> is \<^verbatim>\<open>None\<close>.
\<close>

datatype favorite = Fav "string option" "string \<rightharpoonup> string" | NotDict

text \<open>
  The profile is a dict with the keys \<^verbatim>\<open>history\<close>, \<^verbatim>\<open>favorites\<close>,
  \<^verbatim>\<open>mood_usage\<close>, \<^verbatim>\<open>place_usage\<close>. A key may be absent in a profile read
  from disk (the program guards three of them with \<^verbatim>\<open>setdefault\<close>), so each
  field is an option: \<open>None\<close> is the absent key.
\<close>

record profile =
  history :: "history_entry list option"
  favorites :: "(string \<rightharpoonup> favorite list) option"
  mood_usage :: "(string \<rightharpoonup> int) option"
  place_usage :: "(string \<rightharpoonup> int) option"

text \<open>The default of \<^verbatim>\<open>load_user_profile\<close> on a missing or unparseable file.\<close>

definition empty_profile :: profile where
  "empty_profile =
     \<lparr>history = Some [], favorites = Some Map.empty,
      mood_usage = Some Map.empty, place_usage = Some Map.empty\<rparr>"

section \<open>History\<close>

definition MAX_HISTORY_SIZE :: nat where
  "MAX_HISTORY_SIZE = 50"

text \<open>
  \<^verbatim>\<open>save_history\<close>: append, then keep the last \<open>MAX_HISTORY_SIZE\<close> entries
  (\<^verbatim>\<open>profile["history"][-MAX_HISTORY_SIZE:]\<close>) when the list got longer than that.
  \<^verbatim>\<open>profile["history"]\<close> raises \<open>KeyError\<close> when the key is absent. The write of
  the profile to \<^verbatim>\<open>MEMORY_FILE\<close> that follows does not change the profile.
\<close>

definition save_history :: "profile \<Rightarrow> history_entry \<Rightarrow> error + profile" where
  "save_history p entry =
     (case history p of
        None \<Rightarrow> Inl KeyError
      | Some h \<Rightarrow>
          (let h1 = h @ [entry];
               h2 = (if length h1 > MAX_HISTORY_SIZE
                     then drop (length h1 - MAX_HISTORY_SIZE) h1 else h1)
           in Inr (p\<lparr>history := Some h2\<rparr>)))"

text \<open>A run of \<^verbatim>\<open>save_history\<close> calls, one per entry, in order.\<close>

fun save_history_all :: "profile \<Rightarrow> history_entry list \<Rightarrow> error + profile" where
  "save_history_all p [] = Inr p"
| "save_history_all p (e # es) =
     (case save_history p e of Inl x \<Rightarrow> Inl x | Inr p' \<Rightarrow> save_history_all p' es)"

section \<open>Places and the combined list\<close>

text \<open>
  A place is the dict \<^verbatim>\<open>fetch_overpass\<close> builds:
  \<^verbatim>\<open>{"name": ..., "lat": ..., "lon": ..., "distance": ..., "tags": ...}\<close>.
\<close>

record place =
  name :: string
  lat :: real
  lon :: real
  distance :: real
  tags :: "string \<rightharpoonup> string"

text \<open>
  The deduplication loop of \<^verbatim>\<open>main\<close>:
  \<^verbatim>\<open>
  unique_places = {}
  for p in all_places:
      if p["name"] not in unique_places or p["distance"] < unique_places[p["name"]]["distance"]:
          unique_places[p["name"]] = p
  \<close>
  The dict is an association list in insertion order; assigning to a key that is
  present replaces the value in place, which is what \<open>AList.update\<close> does.
\<close>

fun unique_places :: "place list \<Rightarrow> (string \<times> place) list \<Rightarrow> (string \<times> place) list" where
  "unique_places [] u = u"
| "unique_places (p # ps) u =
     unique_places ps
       (case map_of u (name p) of
          None \<Rightarrow> AList.update (name p) p u
        | Some q \<Rightarrow> if distance p < distance q then AList.update (name p) p u else u)"

text \<open>
  \<^verbatim>\<open>combined_places = sorted(unique_places.values(), key=lambda x: x["distance"])\<close>;
  Python's sort is stable, as \<open>sort_key\<close> is. \<open>all_places\<close> is the concatenation of
  the per-mood lists (\<^verbatim>\<open>all_places.extend(fetch_overpass(...))\<close> for each mood).
\<close>

definition combined_places :: "place list \<Rightarrow> place list" where
  "combined_places all_places = sort_key distance (map snd (unique_places all_places []))"

text \<open>The invariant of the loop: the keys are distinct and each is its place's name.\<close>

definition keyed :: "(string \<times> place) list \<Rightarrow> bool" where
  "keyed u = (distinct (map fst u) \<and> (\<forall>(k, q) \<in> set u. name q = k))"

section \<open>The mood catalog and mood detection\<close>

text \<open>
  \<^verbatim>\<open>MOOD_TAGS_EXTENDED\<close>, a dict literal: the keys in insertion order, each with its
  list of (tag key, tag value) pairs.
\<close>

definition MOOD_TAGS_EXTENDED :: "(string \<times> (string \<times> string) list) list" where
  "MOOD_TAGS_EXTENDED =
     [(''happy'', [(''amenity'', ''cafe''), (''amenity'', ''restaurant''),
                   (''bar'', ''yes''), (''shop'', ''bakery'')]),
      (''sad'', [(''leisure'', ''park''), (''amenity'', ''library''),
                 (''place_of_worship'', ''church'')]),
      (''adventurous'', [(''leisure'', ''amusement_park''), (''sport'', ''climbing''),
                         (''leisure'', ''sports_centre'')])]"

text \<open>
  \<^verbatim>\<open>str.lower\<close> on the letters that matter here. The mood names are lower-case
  ASCII, and no character outside \<open>A\<close> to \<open>Z\<close> lower-cases to a letter of a mood
  name, so a match of a mood name in the lowered text depends on this part of
  \<^verbatim>\<open>str.lower\<close> only.
\<close>

definition to_lower :: "char \<Rightarrow> char" where
  "to_lower c =
     (case map_of (zip ''ABCDEFGHIJKLMNOPQRSTUVWXYZ'' ''abcdefghijklmnopqrstuvwxyz'') c of
        None \<Rightarrow> c
      | Some l \<Rightarrow> l)"

definition lower :: "string \<Rightarrow> string" where
  "lower s = map to_lower s"

text \<open>Python's \<^verbatim>\<open>m in s\<close> on strings: \<open>m\<close> occurs in \<open>s\<close> as a contiguous substring.\<close>

fun contains :: "string \<Rightarrow> string \<Rightarrow> bool" where
  "contains [] m = (m = [])"
| "contains (c # cs) m = (prefix m (c # cs) \<or> contains cs m)"

text \<open>
  \<^verbatim>\<open>detect_moods_from_text\<close>. The sentiment polarity of the text comes from a
  library (\<^verbatim>\<open>TextBlob(user_input).sentiment.polarity\<close>) and is a parameter. The
  function returns \<^verbatim>\<open>list(set(moods))\<close>, a list of distinct moods in an order the
  language does not fix; the model returns the set.
\<close>

definition detect_moods_from_text :: "(string \<Rightarrow> real) \<Rightarrow> string \<Rightarrow> string set" where
  "detect_moods_from_text polarity user_input =
     (let lowered = lower user_input;
          moods = filter (\<lambda>mood. contains lowered mood) (map fst MOOD_TAGS_EXTENDED)
      in set (if moods = []
              then (if polarity user_input > 0.4 then [''happy'']
                    else if polarity user_input < - 0.2 then [''sad'']
                    else [''adventurous''])
              else moods))"

text \<open>
  The claim's words, for comparison with the code: the mood names that occur in the
  text case-insensitively, that is, some contiguous part of the text lower-cases to
  the name.
\<close>

definition named_moods :: "string \<Rightarrow> string set" where
  "named_moods user_input =
     {m \<in> fst ` set MOOD_TAGS_EXTENDED. \<exists>u v w. user_input = u @ v @ w \<and> lower v = m}"

section \<open>Geocoding with retries\<close>

text \<open>
  One call of the rate-limited geocoder: a location, no location (\<^verbatim>\<open>None\<close>), or an
  exception, with its text \<^verbatim>\<open>str(e)\<close>. The geocoder is a library behind a network; it
  is a parameter, a function of the address and the attempt number.
\<close>

datatype geo_outcome = Found real real | NotFound | Raised string

text \<open>
  The \<^verbatim>\<open>console.print\<close> calls of \<^verbatim>\<open>retry_geocode\<close> and \<^verbatim>\<open>remove_favorite\<close> that put a
  value from outside the program into console markup, each with the values its
  f-string interpolates:
  \<^verbatim>\<open>
  f"[yellow]Attempt {attempt}: Geocoding error: {e}, retrying after {delay} seconds...[/yellow]"
  f"[red]Failed to geocode address '{address}' after {retries} attempts.[/red]"
  f"[green]Removed favorite '{place_name}' from mood '{mood}'[/green]"
  \<close>
  The console library parses the square-bracket tags of the whole string, the
  interpolated text included, and raises \<^verbatim>\<open>MarkupError\<close> on a closing tag that closes
  nothing. Which strings it rejects is the library's matter: it is a parameter
  \<open>markup_error\<close>, true of a message on which \<^verbatim>\<open>console.print\<close> raises. The other
  print of \<^verbatim>\<open>retry_geocode\<close>,
  \<^verbatim>\<open>f"[yellow]Attempt {attempt}: Location not found, retrying...[/yellow]"\<close>,
  interpolates a number into one balanced pair of tags and is not a message here.
\<close>

datatype console_message =
    GeocodingError nat string real
  | FailedToGeocode string nat
  | RemovedFavorite string string

text \<open>
  The loop of \<^verbatim>\<open>retry_geocode\<close>:
  \<^verbatim>\<open>
  delay = initial_delay
  for attempt in range(1, retries + 1):
      try:
          location = geocode(address, timeout=timeout)
          if location: return (location.latitude, location.longitude)
          else: console.print(f"[yellow]Attempt {attempt}: Location not found, ...")
      except Exception as e:
          console.print(f"[yellow]Attempt {attempt}: Geocoding error: {e}, ...")
      time.sleep(delay)
      delay *= 2
  \<close>
  The result is the exception that leaves the loop, or the coordinates returned
  (\<open>None\<close> when the loop ends without returning), the list of delays slept, in order,
  and the number of geocoder calls made. \<^verbatim>\<open>except Exception\<close> catches whatever the
  geocoder raises; the print in the handler is outside the \<^verbatim>\<open>try\<close>, so what it raises
  leaves the function.
\<close>

fun geocode_loop ::
  "(console_message \<Rightarrow> bool) \<Rightarrow> (string \<Rightarrow> nat \<Rightarrow> geo_outcome) \<Rightarrow> string \<Rightarrow> real \<Rightarrow> nat list \<Rightarrow>
   error + ((real \<times> real) option \<times> real list \<times> nat)" where
  "geocode_loop markup_error geocode address delay [] = Inr (None, [], 0)"
| "geocode_loop markup_error geocode address delay (attempt # rest) =
     (case geocode address attempt of
        Found la lo \<Rightarrow> Inr (Some (la, lo), [], 1)
      | NotFound \<Rightarrow>
          (case geocode_loop markup_error geocode address (delay * 2) rest of
             Inl x \<Rightarrow> Inl x
           | Inr (r, sl, n) \<Rightarrow> Inr (r, delay # sl, Suc n))
      | Raised e \<Rightarrow>
          if markup_error (GeocodingError attempt e delay) then Inl MarkupError
          else
            (case geocode_loop markup_error geocode address (delay * 2) rest of
               Inl x \<Rightarrow> Inl x
             | Inr (r, sl, n) \<Rightarrow> Inr (r, delay # sl, Suc n)))"

text \<open>
  \<^verbatim>\<open>retry_geocode\<close>: the loop, and after a loop that ended without returning
  \<^verbatim>\<open>
  console.print(f"[red]Failed to geocode address '{address}' after {retries} attempts.[/red]")
  return None
  \<close>
  The print is outside any \<^verbatim>\<open>try\<close>: when it raises, the function raises.
\<close>

definition retry_geocode ::
  "(console_message \<Rightarrow> bool) \<Rightarrow> (string \<Rightarrow> nat \<Rightarrow> geo_outcome) \<Rightarrow> string \<Rightarrow> nat \<Rightarrow> real \<Rightarrow>
   error + ((real \<times> real) option \<times> real list \<times> nat)" where
  "retry_geocode markup_error geocode address retries initial_delay =
     (case geocode_loop markup_error geocode address initial_delay [1..<retries + 1] of
        Inl x \<Rightarrow> Inl x
      | Inr (r, sl, n) \<Rightarrow>
          (case r of
             Some location \<Rightarrow> Inr (Some location, sl, n)
           | None \<Rightarrow>
               if markup_error (FailedToGeocode address retries) then Inl MarkupError
               else Inr (None, sl, n)))"

text \<open>An attempt fails when it gives no location: an empty result or an exception.\<close>

fun failed :: "geo_outcome \<Rightarrow> bool" where
  "failed (Found la lo) = False"
| "failed NotFound = True"
| "failed (Raised e) = True"

text \<open>
  A console that rejects the failure message for the address \<^verbatim>\<open>[/]\<close> and the removal
  message for the place name \<^verbatim>\<open>[/]\<close>, as the console library does (the tag closes
  the message's opening tag, and the message's own closing tag then closes nothing),
  and accepts every other message: one value of the parameter \<open>markup_error\<close>, for
  evaluating the functions.
\<close>

fun rejects_closing_tag :: "console_message \<Rightarrow> bool" where
  "rejects_closing_tag (GeocodingError attempt e delay) = False"
| "rejects_closing_tag (FailedToGeocode address retries) = (address = ''[/]'')"
| "rejects_closing_tag (RemovedFavorite place_name mood) = (place_name = ''[/]'')"

section \<open>Fetching places\<close>

text \<open>
  Python's \<^verbatim>\<open>round(x, ndigits)\<close> on a float: the decimal with \<open>ndigits\<close> digits
  nearest to the exact value of \<open>x\<close>, a tie going to the even last digit.
\<close>

definition round_half_even :: "real \<Rightarrow> int" where
  "round_half_even s =
     (let f = \<lfloor>s\<rfloor>
      in if s - of_int f < 1 / 2 then f
         else if s - of_int f > 1 / 2 then f + 1
         else if even f then f else f + 1)"

definition py_round :: "real \<Rightarrow> nat \<Rightarrow> real" where
  "py_round x ndigits = of_int (round_half_even (x * 10 ^ ndigits)) / 10 ^ ndigits"

text \<open>
  \<^verbatim>\<open>lat, lon = coords; cache_key = (round(lat, 4), round(lon, 4), mood, radius_m)\<close>,
  and the cache
  \<^verbatim>\<open>CACHE\<close>, a dict from keys to place lists.
\<close>

type_synonym cache_key = "real \<times> real \<times> string \<times> int"

type_synonym cache = "cache_key \<rightharpoonup> place list"

definition cache_key :: "real \<times> real \<Rightarrow> string \<Rightarrow> int \<Rightarrow> cache_key" where
  "cache_key coords mood radius_m =
     (py_round (fst coords) 4, py_round (snd coords) 4, mood, radius_m)"

text \<open>
  The claim's words, for comparison with the code: the great-circle separation of two
  coordinate pairs in meters, by the haversine formula on a sphere of the mean Earth
  radius. The code never computes it; the claim about cache keys is stated with it.
\<close>

definition great_circle_m :: "real \<times> real \<Rightarrow> real \<times> real \<Rightarrow> real" where
  "great_circle_m a b =
     (let phi1 = fst a * pi / 180; phi2 = fst b * pi / 180;
          dphi = (fst b - fst a) * pi / 180; dlam = (snd b - snd a) * pi / 180;
          h = (sin (dphi / 2))\<^sup>2 + cos phi1 * cos phi2 * (sin (dlam / 2))\<^sup>2
      in 2 * 6371008.8 * arcsin (sqrt h))"

text \<open>
  An element of the provider's JSON response: optional \<^verbatim>\<open>tags\<close>, optional
  \<^verbatim>\<open>lat\<close> and \<^verbatim>\<open>lon\<close>, and an optional \<^verbatim>\<open>center\<close> with optional \<^verbatim>\<open>lat\<close> and
  \<^verbatim>\<open>lon\<close>. \<open>None\<close> is an absent key.
\<close>

record center =
  center_lat :: "real option"
  center_lon :: "real option"

record element =
  el_tags :: "(string \<rightharpoonup> string) option"
  el_lat :: "real option"
  el_lon :: "real option"
  el_center :: "center option"

text \<open>
  Python's truth value of \<^verbatim>\<open>d.get(k)\<close> for a number: \<^verbatim>\<open>None\<close> is false, and so is
  zero. \<^verbatim>\<open>a or b\<close> is \<open>a\<close> when \<open>a\<close> is true, else \<open>b\<close>.
\<close>

definition truthy :: "real option \<Rightarrow> bool" where
  "truthy v = (case v of None \<Rightarrow> False | Some x \<Rightarrow> x \<noteq> 0)"

definition py_or :: "real option \<Rightarrow> real option \<Rightarrow> real option" where
  "py_or a b = (if truthy a then a else b)"

text \<open>
  The body of the loop over the elements:
  \<^verbatim>\<open>
  name = el.get("tags", {}).get("name", "Unnamed")
  lat_p = el.get("lat") or el.get("center", {}).get("lat")
  lon_p = el.get("lon") or el.get("center", {}).get("lon")
  tags_el = el.get("tags", {})
  if lat_p and lon_p:
      dist = geodesic(coords, (lat_p, lon_p)).km
      places.append({"name": name, "lat": lat_p, "lon": lon_p, "distance": dist, "tags": tags_el})
  \<close>
  \<open>Some\<close> is the place appended, \<open>None\<close> an element skipped. The distance function is
  the library's (\<^verbatim>\<open>geopy.distance.geodesic\<close>) and is a parameter.
\<close>

definition element_place ::
  "(real \<times> real \<Rightarrow> real \<times> real \<Rightarrow> real) \<Rightarrow> real \<times> real \<Rightarrow> element \<Rightarrow> place option" where
  "element_place geodesic coords el =
     (let tags_el = (case el_tags el of None \<Rightarrow> Map.empty | Some t \<Rightarrow> t);
          name_el = (case tags_el ''name'' of None \<Rightarrow> ''Unnamed'' | Some n \<Rightarrow> n);
          lat_p = py_or (el_lat el)
                    (case el_center el of None \<Rightarrow> None | Some c \<Rightarrow> center_lat c);
          lon_p = py_or (el_lon el)
                    (case el_center el of None \<Rightarrow> None | Some c \<Rightarrow> center_lon c)
      in case (lat_p, lon_p) of
           (Some la, Some lo) \<Rightarrow>
             if la \<noteq> 0 \<and> lo \<noteq> 0
             then Some \<lparr>name = name_el, lat = la, lon = lo,
                         distance = geodesic coords (la, lo), tags = tags_el\<rparr>
             else None
         | _ \<Rightarrow> None)"

text \<open>
  One HTTP request to the provider: \<^verbatim>\<open>requests.RequestException\<close> (a network or HTTP
  error, or a body that is not JSON), or the decoded JSON object, of which the
  function reads \<^verbatim>\<open>data.get("elements", [])\<close>: \<open>Response None\<close> is an object with
  no \<^verbatim>\<open>elements\<close> key. The provider is a parameter, a function of the attempt number.
\<close>

datatype http_result = RequestException | Response "element list option"

text \<open>
  The retry loop:
  \<^verbatim>\<open>
  for attempt in range(1, retries + 1):
      try:
          response = requests.get(...); response.raise_for_status()
          data = response.json()
          break
      except requests.RequestException as e:
          if attempt < retries: time.sleep(2 ** attempt)
  \<close>
  It gives the data or \<open>None\<close>, the seconds slept, in order, and the number of
  requests made.
\<close>

fun overpass_attempts ::
  "(nat \<Rightarrow> http_result) \<Rightarrow> nat \<Rightarrow> nat list \<Rightarrow> element list option option \<times> nat list \<times> nat" where
  "overpass_attempts provider retries [] = (None, [], 0)"
| "overpass_attempts provider retries (attempt # rest) =
     (case provider attempt of
        Response data \<Rightarrow> (Some data, [], 1)
      | RequestException \<Rightarrow>
          (case overpass_attempts provider retries rest of
             (d, sl, n) \<Rightarrow>
               (d, (if attempt < retries then [2 ^ attempt] else []) @ sl, Suc n)))"

text \<open>
  \<^verbatim>\<open>fetch_overpass\<close>. It returns the place list or raises (\<open>returned\<close>), and leaves
  the cache (\<open>cache_after\<close>), the sleeps (\<open>slept\<close>) and the number of provider
  requests (\<open>requests\<close>). \<^verbatim>\<open>MOOD_TAGS_EXTENDED[mood]\<close> raises \<open>KeyError\<close> for a mood
  that is not in the catalog. The query string is built from the tags and sent with
  every request; what the provider answers is the parameter.
\<close>

record fetched =
  returned :: "error + place list"
  cache_after :: cache
  slept :: "nat list"
  requests :: nat

definition fetch_overpass ::
  "(real \<times> real \<Rightarrow> real \<times> real \<Rightarrow> real) \<Rightarrow> (nat \<Rightarrow> http_result) \<Rightarrow> cache \<Rightarrow>
   real \<times> real \<Rightarrow> string \<Rightarrow> int \<Rightarrow> fetched" where
  "fetch_overpass geodesic provider CACHE coords mood radius_m =
     (case CACHE (cache_key coords mood radius_m) of
        Some cached \<Rightarrow>
          \<lparr>returned = Inr cached, cache_after = CACHE, slept = [], requests = 0\<rparr>
      | None \<Rightarrow>
          (case map_of MOOD_TAGS_EXTENDED mood of
             None \<Rightarrow>
               \<lparr>returned = Inl KeyError, cache_after = CACHE, slept = [], requests = 0\<rparr>
           | Some query_tags \<Rightarrow>
               (case overpass_attempts provider 3 [1..<3 + 1] of
                  (None, sl, n) \<Rightarrow>
                    \<lparr>returned = Inr [], cache_after = CACHE, slept = sl, requests = n\<rparr>
                | (Some data, sl, n) \<Rightarrow>
                    (let places =
                       sort_key distance
                         (List.map_filter (element_place geodesic coords)
                            (case data of None \<Rightarrow> [] | Some els \<Rightarrow> els))
                     in \<lparr>returned = Inr places,
                         cache_after = CACHE(cache_key coords mood radius_m \<mapsto> places),
                         slept = sl, requests = n\<rparr>))))"

section \<open>Loading the cache\<close>

text \<open>A JSON value, as \<^verbatim>\<open>json.load\<close> returns it; an object is the list of its items.\<close>

datatype json =
  JNull | JBool bool | JNum real | JStr string | JArr "json list" | JObj "(string \<times> json) list"

text \<open>
  The cache file as \<^verbatim>\<open>open(CACHE_FILE, "r")\<close> and \<^verbatim>\<open>json.load(f)\<close> find it: there is no
  such file (\<^verbatim>\<open>FileNotFoundError\<close>); it cannot be opened or read for another reason
  (another \<^verbatim>\<open>OSError\<close>, such as \<^verbatim>\<open>PermissionError\<close>); its content is not JSON
  (\<^verbatim>\<open>json.JSONDecodeError\<close>); or its content is a JSON value.
\<close>

datatype cache_file = FileMissing | Unreadable | NotJson | Json json

text \<open>
  The dict comprehension \<^verbatim>\<open>{eval(k): v for k, v in tmp.items()}\<close> over the items of
  an object, in order. \<^verbatim>\<open>eval\<close> is Python's; it is a parameter that gives the key or
  the exception raised, and an exception leaves the comprehension.
\<close>

fun load_items ::
  "(string \<Rightarrow> error + 'k) \<Rightarrow> (string \<times> json) list \<Rightarrow> ('k \<rightharpoonup> json) \<Rightarrow> error + ('k \<rightharpoonup> json)" where
  "load_items py_eval [] c = Inr c"
| "load_items py_eval ((k, v) # kvs) c =
     (case py_eval k of
        Inl x \<Rightarrow> Inl x
      | Inr key \<Rightarrow> load_items py_eval kvs (c(key \<mapsto> v)))"

text \<open>
  \<^verbatim>\<open>load_cache\<close>:
  \<^verbatim>\<open>
  try:
      with open(CACHE_FILE, "r") as f:
          tmp = json.load(f)
          CACHE = {eval(k): v for k, v in tmp.items()}
  except (FileNotFoundError, json.JSONDecodeError):
      CACHE = {}
  \<close>
  The result is the new value of \<^verbatim>\<open>CACHE\<close>, or the exception that leaves the function.
  Only the two exceptions named are caught. \<^verbatim>\<open>tmp.items()\<close> raises
  \<open>AttributeError\<close> when \<open>tmp\<close> is not a dict, that is, for every JSON value other
  than an object.
\<close>

definition load_cache :: "(string \<Rightarrow> error + 'k) \<Rightarrow> cache_file \<Rightarrow> error + ('k \<rightharpoonup> json)" where
  "load_cache py_eval file =
     (case file of
        FileMissing \<Rightarrow> Inr Map.empty
      | Unreadable \<Rightarrow> Inl OSError
      | NotJson \<Rightarrow> Inr Map.empty
      | Json tmp \<Rightarrow>
          (case tmp of
             JObj kvs \<Rightarrow> load_items py_eval kvs Map.empty
           | _ \<Rightarrow> Inl AttributeError))"

section \<open>Favorites and usage counters\<close>

text \<open>
  \<^verbatim>\<open>MoodInPlace\<close>: some (key, value) pair of the mood's catalog entry is a tag of the
  place (\<^verbatim>\<open>place_tags.get(key) == val\<close>). \<^verbatim>\<open>MOOD_TAGS_EXTENDED[mood]\<close> raises \<open>KeyError\<close>
  for a mood that is not in the catalog.
\<close>

definition MoodInPlace :: "(string \<rightharpoonup> string) \<Rightarrow> string \<Rightarrow> error + bool" where
  "MoodInPlace place_tags mood =
     (case map_of MOOD_TAGS_EXTENDED mood of
        None \<Rightarrow> Inl KeyError
      | Some kvs \<Rightarrow> Inr (list_ex (\<lambda>(key, val). place_tags key = Some val) kvs))"

text \<open>
  \<^verbatim>\<open>update_usage_counters\<close>:
  \<^verbatim>\<open>
  profile.setdefault("mood_usage", {})
  profile.setdefault("place_usage", {})
  profile["mood_usage"][mood] = profile["mood_usage"].get(mood, 0) + 1
  profile["place_usage"][place_name] = profile["place_usage"].get(place_name, 0) + 1
  \<close>
\<close>

definition update_usage_counters :: "profile \<Rightarrow> string \<Rightarrow> string \<Rightarrow> profile" where
  "update_usage_counters p mood place_name =
     (let mu = (case mood_usage p of None \<Rightarrow> Map.empty | Some m \<Rightarrow> m);
          pu = (case place_usage p of None \<Rightarrow> Map.empty | Some m \<Rightarrow> m)
      in p\<lparr>mood_usage := Some (mu(mood \<mapsto> (case mu mood of None \<Rightarrow> 0 | Some c \<Rightarrow> c) + 1)),
           place_usage :=
             Some (pu(place_name \<mapsto> (case pu place_name of None \<Rightarrow> 0 | Some c \<Rightarrow> c) + 1))\<rparr>)"

text \<open>
  \<^verbatim>\<open>any(fav["name"] == place["name"] for fav in fav_list if isinstance(fav, dict))\<close>:
  the entries are visited in order up to the first one of that name; an entry that is
  not a dict is skipped, and a dict without \<^verbatim>\<open>name\<close> raises \<open>KeyError\<close>.
\<close>

fun any_named :: "favorite list \<Rightarrow> string \<Rightarrow> error + bool" where
  "any_named [] place_name = Inr False"
| "any_named (NotDict # favs) place_name = any_named favs place_name"
| "any_named (Fav None t # favs) place_name = Inl KeyError"
| "any_named (Fav (Some n) t # favs) place_name =
     (if n = place_name then Inr True else any_named favs place_name)"

text \<open>
  The inner loop of the favorites update in \<^verbatim>\<open>main\<close>, up to its \<^verbatim>\<open>break\<close>:
  \<^verbatim>\<open>
  for place in combined_places:
      if MoodInPlace(place["tags"], mood):
          if not any(fav["name"] == place["name"] for fav in fav_list if isinstance(fav, dict)):
              fav_list.append(...); update_usage_counters(...); break
  \<close>
  The list \<open>fav_list\<close> does not change before the \<^verbatim>\<open>break\<close>, so the loop is a search for
  the place to append: \<open>Some\<close> of it, \<open>None\<close> when the loop ends without appending, or
  the exception raised on the way.
\<close>

fun favorite_scan :: "favorite list \<Rightarrow> string \<Rightarrow> place list \<Rightarrow> error + place option" where
  "favorite_scan fav_list mood [] = Inr None"
| "favorite_scan fav_list mood (place # rest) =
     (case MoodInPlace (tags place) mood of
        Inl x \<Rightarrow> Inl x
      | Inr matches \<Rightarrow>
          if matches then
            (case any_named fav_list (name place) of
               Inl x \<Rightarrow> Inl x
             | Inr present \<Rightarrow>
                 if present then favorite_scan fav_list mood rest else Inr (Some place))
          else favorite_scan fav_list mood rest)"

text \<open>
  The body of the outer loop, for one mood:
  \<^verbatim>\<open>
  fav_list = profile.setdefault("favorites", {}).setdefault(mood, [])
  for place in combined_places: ...
          fav_list.append({"name": place["name"], "tags": place["tags"]})
          update_usage_counters(profile, mood, place["name"])
          break
  \<close>
  The profile is mutated in place, so the result is the profile as the body leaves it
  and the exception it raised, if any.
\<close>

definition favorites_for_mood :: "profile \<Rightarrow> place list \<Rightarrow> string \<Rightarrow> profile \<times> error option" where
  "favorites_for_mood p places mood =
     (let favs = (case favorites p of None \<Rightarrow> Map.empty | Some f \<Rightarrow> f);
          fav_list = (case favs mood of None \<Rightarrow> [] | Some l \<Rightarrow> l);
          p1 = p\<lparr>favorites := Some (favs(mood \<mapsto> fav_list))\<rparr>
      in case favorite_scan fav_list mood places of
           Inl x \<Rightarrow> (p1, Some x)
         | Inr None \<Rightarrow> (p1, None)
         | Inr (Some place) \<Rightarrow>
             (update_usage_counters
                (p\<lparr>favorites :=
                     Some (favs(mood \<mapsto> fav_list @ [Fav (Some (name place)) (tags place)]))\<rparr>)
                mood (name place),
              None))"

text \<open>
  The favorites update of a search, \<^verbatim>\<open>for mood in moods: ...\<close> (lines 330 to 337 of
  \<^verbatim>\<open>main\<close>), over the combined list of the search. An exception ends the loop.
\<close>

fun main_favorites :: "profile \<Rightarrow> string list \<Rightarrow> place list \<Rightarrow> profile \<times> error option" where
  "main_favorites p [] places = (p, None)"
| "main_favorites p (mood # moods) places =
     (case favorites_for_mood p places mood of
        (p', Some x) \<Rightarrow> (p', Some x)
      | (p', None) \<Rightarrow> main_favorites p' moods places)"

text \<open>
  The list comprehension of \<^verbatim>\<open>remove_favorite\<close>,
  \<^verbatim>\<open>[fav for fav in profile["favorites"][mood] if fav.get("name") != place_name]\<close>:
  \<^verbatim>\<open>fav.get\<close> raises \<open>AttributeError\<close> on an entry that is not a dict, and is
  \<^verbatim>\<open>None\<close> on a dict without \<^verbatim>\<open>name\<close>.
\<close>

fun keep_others :: "favorite list \<Rightarrow> string \<Rightarrow> error + favorite list" where
  "keep_others [] place_name = Inr []"
| "keep_others (NotDict # favs) place_name = Inl AttributeError"
| "keep_others (Fav n t # favs) place_name =
     (case keep_others favs place_name of
        Inl x \<Rightarrow> Inl x
      | Inr kept \<Rightarrow> Inr (if n \<noteq> Some place_name then Fav n t # kept else kept))"

text \<open>
  \<^verbatim>\<open>remove_favorite\<close>:
  \<^verbatim>\<open>
  if mood in profile.get("favorites", {}):
      profile["favorites"][mood] = [fav for fav in ... if fav.get("name") != place_name]
      save_user_profile(profile)
      console.print(f"[green]Removed favorite '{place_name}' from mood '{mood}'[/green]")
  \<close>
  The result is the profile as the function leaves it and the exception it raised, if
  any: the comprehension raises before the assignment, the print after it. The function
  is modelled on a profile, as its signature has it.
\<close>

definition remove_favorite ::
  "(console_message \<Rightarrow> bool) \<Rightarrow> profile \<Rightarrow> string \<Rightarrow> string \<Rightarrow> profile \<times> error option" where
  "remove_favorite markup_error p mood place_name =
     (case favorites p of
        None \<Rightarrow> (p, None)
      | Some favs \<Rightarrow>
          (case favs mood of
             None \<Rightarrow> (p, None)
           | Some fav_list \<Rightarrow>
               (case keep_others fav_list place_name of
                  Inl x \<Rightarrow> (p, Some x)
                | Inr kept \<Rightarrow>
                    (p\<lparr>favorites := Some (favs(mood \<mapsto> kept))\<rparr>,
                     if markup_error (RemovedFavorite place_name mood)
                     then Some MarkupError else None))))"

text \<open>
  The operations of the program on a profile, and a run of them in order: each gives
  the profile as it leaves it, and an exception ends the run.
\<close>

datatype operation =
    SaveHistory history_entry
  | Favorites "string list" "place list"
  | RemoveFavorite string string

fun apply_operation ::
  "(console_message \<Rightarrow> bool) \<Rightarrow> profile \<Rightarrow> operation \<Rightarrow> profile \<times> error option" where
  "apply_operation markup_error p (SaveHistory entry) =
     (case save_history p entry of Inl x \<Rightarrow> (p, Some x) | Inr p' \<Rightarrow> (p', None))"
| "apply_operation markup_error p (Favorites moods places) = main_favorites p moods places"
| "apply_operation markup_error p (RemoveFavorite mood place_name) =
     remove_favorite markup_error p mood place_name"

fun apply_operations ::
  "(console_message \<Rightarrow> bool) \<Rightarrow> profile \<Rightarrow> operation list \<Rightarrow> profile \<times> error option" where
  "apply_operations markup_error p [] = (p, None)"
| "apply_operations markup_error p (action # actions) =
     (case apply_operation markup_error p action of
        (p', Some x) \<Rightarrow> (p', Some x)
      | (p', None) \<Rightarrow> apply_operations markup_error p' actions)"

text \<open>
  What the claims speak of: the favorite list of a mood (empty when there is none), the
  names of its entries, the number of entries of a name under a mood, the two usage
  counters (0 when absent), and the place a search appends for a mood: the first place
  of the combined list that matches the mood and whose name is not yet a favorite of
  the mood.
\<close>

definition fav_list_of :: "profile \<Rightarrow> string \<Rightarrow> favorite list" where
  "fav_list_of p mood =
     (case favorites p of
        None \<Rightarrow> []
      | Some favs \<Rightarrow> (case favs mood of None \<Rightarrow> [] | Some l \<Rightarrow> l))"

definition fav_names :: "favorite list \<Rightarrow> string list" where
  "fav_names l = List.map_filter (\<lambda>fav. case fav of Fav n t \<Rightarrow> n | NotDict \<Rightarrow> None) l"

definition favorite_count :: "profile \<Rightarrow> string \<Rightarrow> string \<Rightarrow> nat" where
  "favorite_count p mood n = count_list (fav_names (fav_list_of p mood)) n"

definition mood_count :: "profile \<Rightarrow> string \<Rightarrow> int" where
  "mood_count p mood =
     (case mood_usage p of
        None \<Rightarrow> 0
      | Some mu \<Rightarrow> (case mu mood of None \<Rightarrow> 0 | Some c \<Rightarrow> c))"

definition place_count :: "profile \<Rightarrow> string \<Rightarrow> int" where
  "place_count p place_name =
     (case place_usage p of
        None \<Rightarrow> 0
      | Some pu \<Rightarrow> (case pu place_name of None \<Rightarrow> 0 | Some c \<Rightarrow> c))"

definition new_favorite :: "profile \<Rightarrow> place list \<Rightarrow> string \<Rightarrow> place option" where
  "new_favorite p places mood =
     find (\<lambda>place. MoodInPlace (tags place) mood = Inr True \<and>
                    name place \<notin> set (fav_names (fav_list_of p mood))) places"

section \<open>Properties of the history\<close>

lemma save_history_Some:
  "history p = Some h \<Longrightarrow>
   save_history p e =
     Inr (p\<lparr>history := Some (drop (length h + 1 - MAX_HISTORY_SIZE) (h @ [e]))\<rparr>)"
  by (simp add: save_history_def Let_def)

lemma save_history_all_Some:
  "history p = Some h \<Longrightarrow> es \<noteq> [] \<Longrightarrow>
   \<exists>p'. save_history_all p es = Inr p' \<and>
        history p' = Some (drop (length h + length es - MAX_HISTORY_SIZE) (h @ es)) \<and>
        favorites p' = favorites p \<and> mood_usage p' = mood_usage p \<and>
        place_usage p' = place_usage p"
proof (induction es arbitrary: p h)
  case Nil
  then show ?case by simp
next
  case (Cons e es)
  let ?h1 = "drop (length h + 1 - MAX_HISTORY_SIZE) (h @ [e])"
  let ?p1 = "p\<lparr>history := Some ?h1\<rparr>"
  have step: "save_history p e = Inr ?p1"
    using Cons.prems(1) by (rule save_history_Some)
  show ?case
  proof (cases "es = []")
    case True
    then show ?thesis using step by simp
  next
    case False
    have "history ?p1 = Some ?h1" by simp
    from Cons.IH [OF this False] obtain p' where
      run: "save_history_all ?p1 es = Inr p'" and
      h': "history p' = Some (drop (length ?h1 + length es - MAX_HISTORY_SIZE) (?h1 @ es))" and
      rest: "favorites p' = favorites ?p1" "mood_usage p' = mood_usage ?p1"
            "place_usage p' = place_usage ?p1"
      by blast
    have "drop (length ?h1 + length es - MAX_HISTORY_SIZE) (?h1 @ es) =
          drop (length h + length (e # es) - MAX_HISTORY_SIZE) (h @ e # es)"
      by (cases "length h + 1 \<le> MAX_HISTORY_SIZE")
         (simp_all add: MAX_HISTORY_SIZE_def add.commute)
    then show ?thesis using step run h' rest by simp
  qed
qed

text \<open>
  C4. Starting from any profile that has a history list, after \<open>N\<close> calls of
  \<^verbatim>\<open>save_history\<close> with \<open>N > 50\<close> the history has length exactly 50 and is the
  last 50 appended entries in append order; with \<open>N \<le> 50\<close> every appended entry is
  kept, in order, at the end of the history, and nothing at all is dropped while the
  total stays within 50.
\<close>

theorem save_history_keeps_last_50:
  assumes "history p = Some h0"
  shows "\<exists>p' h'. save_history_all p es = Inr p' \<and> history p' = Some h' \<and>
           (50 < length es \<longrightarrow> length h' = 50 \<and> h' = drop (length es - 50) es) \<and>
           (length es \<le> 50 \<longrightarrow> (\<exists>old. h' = old @ es)) \<and>
           (length h0 + length es \<le> 50 \<longrightarrow> h' = h0 @ es)"
proof (cases "es = []")
  case True
  then show ?thesis using assms by simp
next
  case False
  from save_history_all_Some [OF assms False] obtain p' where
    run: "save_history_all p es = Inr p'" and
    h': "history p' = Some (drop (length h0 + length es - MAX_HISTORY_SIZE) (h0 @ es))"
    by blast
  let ?h' = "drop (length h0 + length es - 50) (h0 @ es)"
  have a: "50 < length es \<longrightarrow> length ?h' = 50 \<and> ?h' = drop (length es - 50) es"
    by auto
  have b: "length es \<le> 50 \<longrightarrow> (\<exists>old. ?h' = old @ es)"
    by auto
  have c: "length h0 + length es \<le> 50 \<longrightarrow> ?h' = h0 @ es"
    by simp
  show ?thesis
    using run h' a b c unfolding MAX_HISTORY_SIZE_def by blast
qed

theorem save_history_keeps_last_50_witness:
  "\<exists>p'. save_history_all empty_profile
          (map (\<lambda>i. \<lparr>entry_input = ''q'', detected_moods = [],
                      timestamp = replicate i CHR ''1''\<rparr>) [0..<51]) = Inr p' \<and>
        history p' =
          Some (map (\<lambda>i. \<lparr>entry_input = ''q'', detected_moods = [],
                           timestamp = replicate i CHR ''1''\<rparr>) [1..<51])"
  using save_history_keeps_last_50 [of empty_profile "[]"
      "map (\<lambda>i. \<lparr>entry_input = ''q'', detected_moods = [],
                  timestamp = replicate i CHR ''1''\<rparr>) [0..<51]"]
  by (simp add: empty_profile_def drop_map)

section \<open>Properties of the combined list\<close>

lemma set_update_subset: "set (AList.update k v al) \<subseteq> insert (k, v) (set al)"
  by (induction al) auto

lemma keyed_update: "keyed u \<Longrightarrow> keyed (AList.update (name p) p u)"
  unfolding keyed_def using set_update_subset [of "name p" p u]
  by (auto simp: AList.distinct_update)

lemma keyed_unique_places: "keyed u \<Longrightarrow> keyed (unique_places ps u)"
  by (induction ps arbitrary: u) (auto simp: keyed_update split: option.splits)

lemma unique_places_from:
  "snd ` set (unique_places ps u) \<subseteq> set ps \<union> snd ` set u"
proof (induction ps arbitrary: u)
  case Nil
  show ?case by simp
next
  case (Cons p ps)
  let ?u' = "case map_of u (name p) of
          None \<Rightarrow> AList.update (name p) p u
        | Some q \<Rightarrow> if distance p < distance q then AList.update (name p) p u else u"
  have "snd ` set (AList.update (name p) p u) \<subseteq> insert p (snd ` set u)"
    using set_update_subset [of "name p" p u] by auto
  then have "snd ` set ?u' \<subseteq> insert p (snd ` set u)"
    by (auto split: option.splits)
  moreover have "snd ` set (unique_places ps ?u') \<subseteq> set ps \<union> snd ` set ?u'"
    by (rule Cons.IH)
  ultimately have "snd ` set (unique_places ps ?u') \<subseteq> insert p (set ps) \<union> snd ` set u"
    by blast
  then show ?case by simp
qed

lemma unique_places_least:
  assumes "keyed u" "p \<in> set ps \<union> snd ` set u"
  shows "\<exists>q. map_of (unique_places ps u) (name p) = Some q \<and> distance q \<le> distance p"
  using assms
proof (induction ps arbitrary: u p)
  case Nil
  then obtain k where "(k, p) \<in> set u" by auto
  with Nil have "map_of u (name p) = Some p" by (auto simp: keyed_def)
  then show ?case by auto
next
  case (Cons a ps)
  let ?u' = "case map_of u (name a) of
          None \<Rightarrow> AList.update (name a) a u
        | Some q \<Rightarrow> if distance a < distance q then AList.update (name a) a u else u"
  have k': "keyed ?u'" using Cons.prems(1) by (auto simp: keyed_update split: option.splits)
  show ?case
  proof (cases "p \<in> set ps")
    case True
    then show ?thesis using Cons.IH [OF k'] by simp
  next
    case False
    have "\<exists>q. map_of ?u' (name p) = Some q \<and> distance q \<le> distance p"
    proof (cases "p = a")
      case True
      then show ?thesis by (auto simp: update_conv' split: option.splits)
    next
      case False
      with \<open>p \<notin> set ps\<close> Cons.prems(2) obtain k where "(k, p) \<in> set u" by auto
      with Cons.prems(1) have "map_of u (name p) = Some p" by (auto simp: keyed_def)
      then show ?thesis by (auto simp: update_conv' split: option.splits)
    qed
    then obtain q where q: "map_of ?u' (name p) = Some q" "distance q \<le> distance p" by blast
    then have "q \<in> snd ` set ?u'" by (metis map_of_SomeD image_eqI snd_conv)
    then have "q \<in> set ps \<union> snd ` set ?u'" by simp
    from Cons.IH [OF k' this] obtain r where
      "map_of (unique_places ps ?u') (name q) = Some r" "distance r \<le> distance q" by blast
    moreover have "name q = name p" using q(1) k' by (auto simp: keyed_def dest!: map_of_SomeD)
    ultimately show ?thesis using q(2) by auto
  qed
qed

text \<open>
  C5. For every collection of per-mood place lists, the combined list holds each place
  name at most once, is sorted ascending by distance, holds only input places, and for
  every input place it holds an entry of the same name whose distance is no larger: the
  retained entry of a name has the smallest distance among the entries of that name.
\<close>

theorem combined_places_dedup_sorted:
  "distinct (map name (combined_places (concat per_mood))) \<and>
   sorted (map distance (combined_places (concat per_mood))) \<and>
   set (combined_places (concat per_mood)) \<subseteq> set (concat per_mood) \<and>
   (\<forall>p \<in> set (concat per_mood). \<exists>q \<in> set (combined_places (concat per_mood)).
       name q = name p \<and> distance q \<le> distance p) \<and>
   (\<forall>q \<in> set (combined_places (concat per_mood)). \<forall>p \<in> set (concat per_mood).
       name p = name q \<longrightarrow> distance q \<le> distance p)"
proof -
  let ?all = "concat per_mood"
  let ?u = "unique_places ?all []"
  have k: "keyed ?u" by (rule keyed_unique_places) (simp add: keyed_def)
  have set_c: "set (combined_places ?all) = snd ` set ?u"
    by (simp add: combined_places_def)
  have "distinct (map name (map snd ?u))"
  proof -
    have "map name (map snd ?u) = map fst ?u"
      using k by (auto simp: keyed_def)
    then show ?thesis using k unfolding keyed_def by metis
  qed
  then have d: "distinct (map name (combined_places ?all))"
    unfolding combined_places_def
    by (metis distinct_map distinct_sort set_sort)
  have s: "sorted (map distance (combined_places ?all))"
    by (simp add: combined_places_def sorted_sort_key)
  have sub: "set (combined_places ?all) \<subseteq> set ?all"
    using unique_places_from [of ?all "[]"] set_c by simp
  have least: "\<exists>q \<in> set (combined_places ?all). name q = name p \<and> distance q \<le> distance p"
    if "p \<in> set ?all" for p
  proof -
    from unique_places_least [of "[]" p ?all] that obtain q where
      q: "map_of ?u (name p) = Some q" "distance q \<le> distance p"
      by (auto simp: keyed_def)
    then have "(name p, q) \<in> set ?u" by (simp add: map_of_SomeD)
    then have "q \<in> snd ` set ?u" "name q = name p" using k by (force simp: keyed_def)+
    then show ?thesis using q(2) set_c by auto
  qed
  have smallest: "distance q \<le> distance p"
    if "q \<in> set (combined_places ?all)" "p \<in> set ?all" "name p = name q" for p q
  proof -
    from least [OF that(2)] obtain r where
      r: "r \<in> set (combined_places ?all)" "name r = name p" "distance r \<le> distance p"
      by blast
    have "inj_on name (set (combined_places ?all))"
      using d by (simp add: distinct_map)
    then have "r = q" using r(1,2) that(1,3) by (auto dest: inj_onD)
    then show ?thesis using r(3) by simp
  qed
  show ?thesis using d s sub least smallest by blast
qed

text \<open>
  Two moods each contribute a place named Central Perk, at distances 1.0 and 0.4: the
  combined list is the one entry at distance 0.4.
\<close>

theorem combined_places_dedup_sorted_witness:
  "combined_places (concat
     [[\<lparr>name = ''Central Perk'', lat = 1, lon = 2, distance = 1.0, tags = [''amenity'' \<mapsto> ''cafe'']\<rparr>],
      [\<lparr>name = ''Central Perk'', lat = 1, lon = 2, distance = 0.4, tags = [''leisure'' \<mapsto> ''park'']\<rparr>]]) =
   [\<lparr>name = ''Central Perk'', lat = 1, lon = 2, distance = 0.4, tags = [''leisure'' \<mapsto> ''park'']\<rparr>]"
  using combined_places_dedup_sorted [of
     "[[\<lparr>name = ''Central Perk'', lat = 1, lon = 2, distance = 1.0, tags = [''amenity'' \<mapsto> ''cafe'']\<rparr>],
      [\<lparr>name = ''Central Perk'', lat = 1, lon = 2, distance = 0.4, tags = [''leisure'' \<mapsto> ''park'']\<rparr>]]"]
  by (simp add: combined_places_def)

section \<open>Properties of mood detection\<close>

lemma contains_iff: "contains s m \<longleftrightarrow> (\<exists>u w. s = u @ m @ w)"
proof (induction s)
  case Nil
  show ?case by auto
next
  case (Cons c cs)
  show ?case
  proof
    assume "contains (c # cs) m"
    then consider "prefix m (c # cs)" | "contains cs m" by auto
    then show "\<exists>u w. c # cs = u @ m @ w"
    proof cases
      case 1
      then obtain w where "c # cs = m @ w" by (auto simp: prefix_def)
      then have "c # cs = [] @ m @ w" by simp
      then show ?thesis by blast
    next
      case 2
      with Cons.IH obtain u w where "cs = u @ m @ w" by blast
      then have "c # cs = (c # u) @ m @ w" by simp
      then show ?thesis by blast
    qed
  next
    assume "\<exists>u w. c # cs = u @ m @ w"
    then obtain u w where uw: "c # cs = u @ m @ w" by blast
    show "contains (c # cs) m"
    proof (cases u)
      case Nil
      with uw have "prefix m (c # cs)" by (simp add: prefix_def)
      then show ?thesis by simp
    next
      case (Cons a u')
      with uw have "cs = u' @ m @ w" by simp
      with Cons.IH have "contains cs m" by blast
      then show ?thesis by simp
    qed
  qed
qed

lemma contains_lower_iff:
  "contains (lower s) m \<longleftrightarrow> (\<exists>u v w. s = u @ v @ w \<and> lower v = m)"
proof
  assume "contains (lower s) m"
  then obtain a b where "lower s = a @ m @ b"
    unfolding contains_iff by blast
  then have "map to_lower s = a @ (m @ b)"
    by (simp only: lower_def)
  then obtain u r where s: "s = u @ r" and r: "m @ b = map to_lower r"
    by (blast dest: map_eq_append_conv [THEN iffD1])
  from r have "map to_lower r = m @ b" by (rule sym)
  then obtain v w where "r = v @ w" "m = map to_lower v"
    by (blast dest: map_eq_append_conv [THEN iffD1])
  with s have "s = u @ v @ w \<and> lower v = m"
    by (simp add: lower_def)
  then show "\<exists>u v w. s = u @ v @ w \<and> lower v = m" by blast
next
  assume "\<exists>u v w. s = u @ v @ w \<and> lower v = m"
  then obtain u v w where "s = u @ v @ w" "lower v = m" by blast
  then have "lower s = lower u @ m @ lower w" by (auto simp: lower_def)
  then show "contains (lower s) m" unfolding contains_iff by blast
qed

lemma matched_moods:
  "set (filter (\<lambda>mood. contains (lower s) mood) (map fst MOOD_TAGS_EXTENDED)) = named_moods s"
  by (auto simp: named_moods_def contains_lower_iff)

text \<open>
  C6. For every text and every polarity the sentiment library may give it, the
  detected moods are a non-empty set: the set of mood names occurring in the text
  case-insensitively when there is one, and otherwise exactly one mood, happy for a
  polarity above 0.4, sad for one below -0.2, adventurous for the rest.
\<close>

theorem detect_moods_from_text_classifies:
  "detect_moods_from_text polarity user_input \<noteq> {} \<and>
   (named_moods user_input \<noteq> {} \<longrightarrow>
      detect_moods_from_text polarity user_input = named_moods user_input) \<and>
   (named_moods user_input = {} \<longrightarrow>
      detect_moods_from_text polarity user_input =
        (if polarity user_input > 0.4 then {''happy''}
         else if polarity user_input < - 0.2 then {''sad''}
         else {''adventurous''}))"
proof -
  let ?moods = "filter (\<lambda>mood. contains (lower user_input) mood) (map fst MOOD_TAGS_EXTENDED)"
  have m: "set ?moods = named_moods user_input" by (rule matched_moods)
  have d: "detect_moods_from_text polarity user_input =
           set (if ?moods = []
                then (if polarity user_input > 0.4 then [''happy'']
                      else if polarity user_input < - 0.2 then [''sad'']
                      else [''adventurous''])
                else ?moods)"
    by (simp add: detect_moods_from_text_def Let_def)
  show ?thesis
  proof (cases "?moods = []")
    case True
    then have "named_moods user_input = {}" using m by simp
    then show ?thesis using d True by simp
  next
    case False
    then have "named_moods user_input \<noteq> {}" using m by auto
    then show ?thesis using d False m by simp
  qed
qed

theorem detect_moods_from_text_classifies_witness:
  "detect_moods_from_text (\<lambda>t. 0.5) ''So HAPPY, a bit Sad'' = {''happy'', ''sad''} \<and>
   named_moods ''So HAPPY, a bit Sad'' = {''happy'', ''sad''} \<and>
   named_moods ''I feel great today'' = {} \<and>
   detect_moods_from_text (\<lambda>t. 0.8) ''I feel great today'' = {''happy''} \<and>
   detect_moods_from_text (\<lambda>t. - 0.7) ''I feel great today'' = {''sad''} \<and>
   detect_moods_from_text (\<lambda>t. 0.4) ''I feel great today'' = {''adventurous''}"
proof -
  have a: "detect_moods_from_text p ''So HAPPY, a bit Sad'' = {''happy'', ''sad''}" for p
    by (simp add: detect_moods_from_text_def MOOD_TAGS_EXTENDED_def lower_def to_lower_def
        insert_commute)
  have b: "set (filter (\<lambda>mood. contains (lower ''I feel great today'') mood)
             (map fst MOOD_TAGS_EXTENDED)) = {}"
    by (simp add: MOOD_TAGS_EXTENDED_def lower_def to_lower_def)
  have n1: "named_moods ''So HAPPY, a bit Sad'' = {''happy'', ''sad''}"
    using detect_moods_from_text_classifies [of "\<lambda>t. 0.5" "''So HAPPY, a bit Sad''"] a
    by auto
  have n2: "named_moods ''I feel great today'' = {}"
    using b by (simp only: matched_moods)
  show ?thesis
    using a n1 n2
      detect_moods_from_text_classifies [of "\<lambda>t. 0.8" "''I feel great today''"]
      detect_moods_from_text_classifies [of "\<lambda>t. - 0.7" "''I feel great today''"]
      detect_moods_from_text_classifies [of "\<lambda>t. 0.4" "''I feel great today''"]
    by simp
qed

section \<open>Properties of geocoding\<close>

lemma backoff_delays:
  "(d::real) # map (\<lambda>i. d * 2 * 2 ^ i) [0..<k] = map (\<lambda>i. d * 2 ^ i) [0..<Suc k]"
proof -
  have "map (\<lambda>i. d * 2 ^ i) [0..<Suc k] = d # map (\<lambda>i. d * 2 ^ i) (map Suc [0..<k])"
    by (simp add: upt_conv_Cons map_Suc_upt del: upt_Suc)
  also have "map (\<lambda>i. d * 2 ^ i) (map Suc [0..<k]) = map (\<lambda>i. d * 2 * 2 ^ i) [0..<k]"
    by simp
  finally show ?thesis by simp
qed

lemma geocode_loop_step:
  assumes "failed (geocode address a)"
  shows "geocode_loop markup_error geocode address d (a # xs) = Inl MarkupError \<or>
         geocode_loop markup_error geocode address d (a # xs) =
           (case geocode_loop markup_error geocode address (d * 2) xs of
              Inl x \<Rightarrow> Inl x
            | Inr (r, sl, n) \<Rightarrow> Inr (r, d # sl, Suc n))"
  using assms by (cases "geocode address a") simp_all

lemma geocode_loop_all_failed:
  "\<forall>a \<in> set xs. failed (geocode address a) \<Longrightarrow>
   geocode_loop markup_error geocode address d xs = Inl MarkupError \<or>
   geocode_loop markup_error geocode address d xs =
     Inr (None, map (\<lambda>i. d * 2 ^ i) [0..<length xs], length xs)"
proof (induction xs arbitrary: d)
  case Nil
  show ?case by simp
next
  case (Cons a xs)
  have f: "failed (geocode address a)" using Cons.prems by simp
  have rest: "geocode_loop markup_error geocode address (d * 2) xs = Inl MarkupError \<or>
     geocode_loop markup_error geocode address (d * 2) xs =
       Inr (None, map (\<lambda>i. d * 2 * 2 ^ i) [0..<length xs], length xs)"
    using Cons.IH [of "d * 2"] Cons.prems by simp
  have m: "d # map (\<lambda>i. d * 2 * 2 ^ i) [0..<length xs] =
           map (\<lambda>i. d * 2 ^ i) [0..<length (a # xs)]"
    using backoff_delays [of d "length xs"] by simp
  from geocode_loop_step [of geocode address a markup_error d xs, OF f] show ?case
  proof
    assume "geocode_loop markup_error geocode address d (a # xs) = Inl MarkupError"
    then show ?thesis by (rule disjI1)
  next
    assume s: "geocode_loop markup_error geocode address d (a # xs) =
           (case geocode_loop markup_error geocode address (d * 2) xs of
              Inl x \<Rightarrow> Inl x
            | Inr (r, sl, n) \<Rightarrow> Inr (r, d # sl, Suc n))"
    from rest show ?thesis
    proof
      assume r: "geocode_loop markup_error geocode address (d * 2) xs = Inl MarkupError"
      show ?thesis unfolding s r by simp
    next
      assume r: "geocode_loop markup_error geocode address (d * 2) xs =
           Inr (None, map (\<lambda>i. d * 2 * 2 ^ i) [0..<length xs], length xs)"
      have "geocode_loop markup_error geocode address d (a # xs) =
              Inr (None, d # map (\<lambda>i. d * 2 * 2 ^ i) [0..<length xs], Suc (length xs))"
        unfolding s r by simp
      then show ?thesis unfolding m by simp
    qed
  qed
qed

lemma geocode_loop_accepted:
  "\<forall>a e d'. \<not> markup_error (GeocodingError a e d') \<Longrightarrow>
   \<exists>r sl n. geocode_loop markup_error geocode address d xs = Inr (r, sl, n)"
proof (induction xs arbitrary: d)
  case Nil
  show ?case by simp
next
  case (Cons a xs)
  from Cons.IH [OF Cons.prems, of "d * 2"] obtain r sl n where
    rest: "geocode_loop markup_error geocode address (d * 2) xs = Inr (r, sl, n)" by blast
  show ?case using rest Cons.prems by (cases "geocode address a") simp_all
qed

lemma geocode_loop_shape:
  "geocode_loop markup_error geocode address d xs = Inr (r, sl, n) \<Longrightarrow>
   n \<le> length xs \<and>
   sl = map (\<lambda>i. d * 2 ^ i) [0..<length sl] \<and>
   length sl = (if r = None then n else n - 1) \<and>
   (\<forall>j < length sl. failed (geocode address (xs ! j))) \<and>
   (r = None \<longrightarrow> n = length xs) \<and>
   (\<forall>la lo. r = Some (la, lo) \<longrightarrow> 0 < n \<and> geocode address (xs ! (n - 1)) = Found la lo)"
proof (induction xs arbitrary: d r sl n)
  case Nil
  then show ?case by simp
next
  case (Cons a xs)
  show ?case
  proof (cases "failed (geocode address a)")
    case False
    then obtain la lo where g: "geocode address a = Found la lo"
      by (cases "geocode address a") simp_all
    with Cons.prems show ?thesis by auto
  next
    case True
    from geocode_loop_step [of geocode address a markup_error d xs, OF True] Cons.prems
    have s: "(case geocode_loop markup_error geocode address (d * 2) xs of
                Inl x \<Rightarrow> Inl x
              | Inr (r, sl, n) \<Rightarrow> Inr (r, d # sl, Suc n)) = Inr (r, sl, n)"
      by auto
    then obtain r' sl' n' where
      rest: "geocode_loop markup_error geocode address (d * 2) xs = Inr (r', sl', n')"
      by (cases "geocode_loop markup_error geocode address (d * 2) xs") auto
    from s rest have eq: "r = r'" "sl = d # sl'" "n = Suc n'" by simp_all
    note ih = Cons.IH [OF rest]
    have sl: "sl = map (\<lambda>i. d * 2 ^ i) [0..<length sl]"
    proof -
      have s': "sl' = map (\<lambda>i. d * 2 * 2 ^ i) [0..<length sl']" using ih by blast
      have "d # sl' = d # map (\<lambda>i. d * 2 * 2 ^ i) [0..<length sl']"
        using s' by (rule arg_cong)
      also have "\<dots> = map (\<lambda>i. d * 2 ^ i) [0..<Suc (length sl')]"
        by (rule backoff_delays)
      finally have e: "d # sl' = map (\<lambda>i. d * 2 ^ i) [0..<Suc (length sl')]" .
      show ?thesis unfolding eq(2) length_Cons by (rule e)
    qed
    have len: "length sl = (if r = None then n else n - 1)"
      using ih eq by (auto split: if_splits)
    have fl: "\<forall>j < length sl. failed (geocode address ((a # xs) ! j))"
    proof (intro allI impI)
      fix j assume "j < length sl"
      then show "failed (geocode address ((a # xs) ! j))"
        using ih eq True by (cases j) auto
    qed
    have fnd: "\<forall>la lo. r = Some (la, lo) \<longrightarrow>
                 0 < n \<and> geocode address ((a # xs) ! (n - 1)) = Found la lo"
      using ih eq by (auto simp: nth_Cons split: nat.splits)
    have n_le: "n \<le> length (a # xs)" using ih eq by simp
    have none: "r = None \<longrightarrow> n = length (a # xs)" using ih eq by simp
    show ?thesis using n_le sl len fl none fnd by blast
  qed
qed

text \<open>
  The retry policy of \<^verbatim>\<open>retry_geocode\<close> with its defaults (5 retries, initial delay
  2), on a console that accepts the messages printed: the geocoder is called at most 5
  times; the function sleeps once after each failed attempt (an empty result or an
  exception), the delays being 2, 4, 8, ... in that order with nothing added; a
  returned location is the one the last attempt found; and when all 5 attempts fail
  it returns \<open>None\<close> after 5 calls and the sleeps 2, 4, 8, 16, 32.
\<close>

lemma retry_geocode_backoff:
  assumes "\<forall>a e d'. \<not> markup_error (GeocodingError a e d')"
    and "\<not> markup_error (FailedToGeocode address 5)"
  shows "\<exists>r sl n. retry_geocode markup_error geocode address 5 2 = Inr (r, sl, n) \<and>
     n \<le> 5 \<and>
     sl = map (\<lambda>i. 2 * 2 ^ i) [0..<length sl] \<and>
     length sl = (if r = None then n else n - 1) \<and>
     (\<forall>j < length sl. failed (geocode address (Suc j))) \<and>
     (\<forall>la lo. r = Some (la, lo) \<longrightarrow> 0 < n \<and> geocode address n = Found la lo) \<and>
     ((\<forall>a \<in> {1..5}. failed (geocode address a)) \<longrightarrow>
        r = None \<and> n = 5 \<and> sl = [2, 4, 8, 16, 32])"
proof -
  from geocode_loop_accepted [OF assms(1), of geocode address 2 "[1..<6]"]
  obtain r sl n where run: "geocode_loop markup_error geocode address 2 [1..<6] = Inr (r, sl, n)"
    by blast
  note shape = geocode_loop_shape [OF run]
  have n5: "n \<le> 5" using shape by simp
  have len: "length sl = (if r = None then n else n - 1)" using shape by blast
  have j5: "j < 5" if "j < length sl" for j using that len n5 by (auto split: if_splits)
  have fl: "\<forall>j < length sl. failed (geocode address (Suc j))"
  proof (intro allI impI)
    fix j assume j: "j < length sl"
    then have "failed (geocode address ([1..<6] ! j))" using shape by blast
    moreover have "[1..<6] ! j = Suc j" using j5 [OF j] by (simp add: nth_upt)
    ultimately show "failed (geocode address (Suc j))" by simp
  qed
  have fnd: "\<forall>la lo. r = Some (la, lo) \<longrightarrow> 0 < n \<and> geocode address n = Found la lo"
  proof (intro allI impI)
    fix la lo assume s: "r = Some (la, lo)"
    then have p: "0 < n" and g: "geocode address ([1..<6] ! (n - 1)) = Found la lo"
      using shape by blast+
    have "[1..<6] ! (n - 1) = n" using p n5 by (simp add: nth_upt)
    then show "0 < n \<and> geocode address n = Found la lo" using p g by simp
  qed
  have allf: "(\<forall>a \<in> {1..5}. failed (geocode address a)) \<longrightarrow>
        r = None \<and> n = 5 \<and> sl = [2, 4, 8, 16, 32]"
  proof
    assume a: "\<forall>a \<in> {1..5}. failed (geocode address a)"
    then have "\<forall>a \<in> set [1..<6]. failed (geocode address a)" by auto
    from geocode_loop_all_failed [of "[1..<6]" geocode address markup_error 2, OF this] run
    have "(r, sl, n) = (None, map (\<lambda>i. 2 * 2 ^ i) [0..<length [1..<6::nat]], length [1..<6::nat])"
      by auto
    moreover have "map (\<lambda>i. (2::real) * 2 ^ i) [0..<5] = [2, 4, 8, 16, 32]"
      by (simp add: upt_conv_Cons)
    ultimately show "r = None \<and> n = 5 \<and> sl = [2, 4, 8, 16, 32]"
      by simp
  qed
  have rg: "retry_geocode markup_error geocode address 5 2 = Inr (r, sl, n)"
    using run assms(2) by (cases r) (simp_all add: retry_geocode_def)
  have sleq: "sl = map (\<lambda>i. 2 * 2 ^ i) [0..<length sl]" using shape by blast
  show ?thesis
    using rg n5 sleq len fl fnd allf
    by (intro exI [of _ r] exI [of _ sl] exI [of _ n] conjI)
qed

lemma retry_geocode_backoff_example:
  "retry_geocode rejects_closing_tag (\<lambda>address attempt. Raised ''Service timed out'')
     ''Nowhere'' 5 2 = Inr (None, [2, 4, 8, 16, 32], 5) \<and>
   retry_geocode rejects_closing_tag
     (\<lambda>address attempt. if attempt = 3 then Found 47.6 (- 122.3) else NotFound)
     ''Seattle, WA'' 5 2 = Inr (Some (47.6, - 122.3), [2, 4], 3)"
  by (simp add: retry_geocode_def upt_conv_Cons)

text \<open>
  C7 does not hold of \<^verbatim>\<open>retry_geocode\<close> for every address. When all 5 attempts fail,
  the function prints the address inside console markup before \<^verbatim>\<open>return None\<close>, outside
  any \<^verbatim>\<open>try\<close>; for an address on which that print raises, as the address \<^verbatim>\<open>[/]\<close>,
  the function raises \<open>MarkupError\<close> to its caller instead of returning \<open>None\<close>,
  whatever the geocoder's failures were.
\<close>

theorem retry_geocode_raises_markup_error:
  assumes "\<forall>a \<in> {1..5}. failed (geocode address a)"
    and "markup_error (FailedToGeocode address 5)"
  shows "retry_geocode markup_error geocode address 5 2 = Inl MarkupError"
proof -
  from assms(1) have "\<forall>a \<in> set [1..<6]. failed (geocode address a)" by auto
  from geocode_loop_all_failed [of "[1..<6]" geocode address markup_error 2, OF this]
  show ?thesis
  proof
    assume "geocode_loop markup_error geocode address 2 [1..<6] = Inl MarkupError"
    then show ?thesis by (simp add: retry_geocode_def)
  next
    assume "geocode_loop markup_error geocode address 2 [1..<6] =
      Inr (None, map (\<lambda>i. 2 * 2 ^ i) [0..<length [1..<6::nat]], length [1..<6::nat])"
    then show ?thesis using assms(2) by (simp add: retry_geocode_def)
  qed
qed

theorem retry_geocode_raises_markup_error_witness:
  "retry_geocode rejects_closing_tag (\<lambda>address attempt. NotFound) ''[/]'' 5 2 =
     Inl MarkupError"
proof -
  have h1: "\<forall>a \<in> {1..5::nat}. failed ((\<lambda>address attempt. NotFound) ''[/]'' a)" by simp
  have h2: "rejects_closing_tag (FailedToGeocode ''[/]'' 5)" by simp
  show ?thesis
    using retry_geocode_raises_markup_error
      [of "\<lambda>address attempt. NotFound" "''[/]''" rejects_closing_tag, OF h1 h2] .
qed

section \<open>Properties of fetching\<close>

lemma overpass_attempts_all_failed:
  "\<forall>a \<in> {1..3}. provider a = RequestException \<Longrightarrow>
   overpass_attempts provider 3 [1..<3 + 1] = (None, [2, 4], 3)"
  by (simp add: upt_conv_Cons)

lemma overpass_attempts_requests:
  "xs \<noteq> [] \<Longrightarrow> overpass_attempts provider retries xs = (d, sl, n) \<Longrightarrow> 0 < n"
  by (cases xs) (auto split: http_result.splits prod.splits)

text \<open>
  C1. For every coordinates, radius and mood of the catalog whose cache key is absent,
  when each of the 3 provider attempts fails with a request exception,
  \<^verbatim>\<open>fetch_overpass\<close> returns the empty list and raises nothing, makes exactly 3
  requests (sleeping 2 and 4 seconds between them) and leaves the cache as it was; so
  the key is still absent and the next call with the same key asks the provider again,
  whatever the provider then does.
\<close>

theorem fetch_overpass_all_attempts_fail:
  assumes "CACHE (cache_key coords mood radius_m) = None"
    and "mood \<in> fst ` set MOOD_TAGS_EXTENDED"
    and "\<forall>a \<in> {1..3}. provider a = RequestException"
  shows "returned (fetch_overpass geodesic provider CACHE coords mood radius_m) = Inr [] \<and>
         cache_after (fetch_overpass geodesic provider CACHE coords mood radius_m) = CACHE \<and>
         requests (fetch_overpass geodesic provider CACHE coords mood radius_m) = 3 \<and>
         slept (fetch_overpass geodesic provider CACHE coords mood radius_m) = [2, 4] \<and>
         (\<forall>provider'.
            0 < requests (fetch_overpass geodesic provider'
                  (cache_after (fetch_overpass geodesic provider CACHE coords mood radius_m))
                  coords mood radius_m))"
proof -
  from assms(2) obtain query_tags where
    m: "map_of MOOD_TAGS_EXTENDED mood = Some query_tags"
    by (auto simp: MOOD_TAGS_EXTENDED_def)
  have att: "overpass_attempts provider 3 [1..<3 + 1] = (None, [2, 4], 3)"
    using assms(3) by (rule overpass_attempts_all_failed)
  have f: "fetch_overpass geodesic provider CACHE coords mood radius_m =
             \<lparr>returned = Inr [], cache_after = CACHE, slept = [2, 4], requests = 3\<rparr>"
    unfolding fetch_overpass_def using assms(1) m att by simp
  have again: "0 < requests (fetch_overpass geodesic provider' CACHE coords mood radius_m)"
    for provider'
  proof -
    obtain d sl n where a: "overpass_attempts provider' 3 [1..<3 + 1] = (d, sl, n)"
      by (cases "overpass_attempts provider' 3 [1..<3 + 1]") blast
    have n: "0 < n" using overpass_attempts_requests [OF _ a] by simp
    show ?thesis
      unfolding fetch_overpass_def using assms(1) m a n
      by (cases d) (simp_all add: Let_def)
  qed
  show ?thesis using f again by simp
qed

theorem fetch_overpass_all_attempts_fail_witness:
  "returned (fetch_overpass (\<lambda>a b. 0) (\<lambda>attempt. RequestException) Map.empty
      (47.6062, - 122.3321) ''happy'' 2500) = Inr [] \<and>
   cache_after (fetch_overpass (\<lambda>a b. 0) (\<lambda>attempt. RequestException) Map.empty
      (47.6062, - 122.3321) ''happy'' 2500) = Map.empty \<and>
   requests (fetch_overpass (\<lambda>a b. 0) (\<lambda>attempt. RequestException) Map.empty
      (47.6062, - 122.3321) ''happy'' 2500) = 3 \<and>
   0 < requests (fetch_overpass (\<lambda>a b. 0) (\<lambda>attempt. Response (Some []))
      (cache_after (fetch_overpass (\<lambda>a b. 0) (\<lambda>attempt. RequestException) Map.empty
         (47.6062, - 122.3321) ''happy'' 2500))
      (47.6062, - 122.3321) ''happy'' 2500)"
proof -
  have h1: "(Map.empty :: cache) (cache_key (47.6062, - 122.3321) ''happy'' 2500) = None"
    by simp
  have h2: "''happy'' \<in> fst ` set MOOD_TAGS_EXTENDED"
    by (simp add: MOOD_TAGS_EXTENDED_def)
  have h3: "\<forall>a \<in> {1..3}. (\<lambda>attempt. RequestException) a = RequestException"
    by simp
  show ?thesis
    using fetch_overpass_all_attempts_fail [OF h1 h2 h3, of "\<lambda>a b. 0"] by blast
qed

lemma element_place_included:
  "element_place geodesic coords el \<noteq> None \<longleftrightarrow>
     truthy (py_or (el_lat el) (case el_center el of None \<Rightarrow> None | Some c \<Rightarrow> center_lat c)) \<and>
     truthy (py_or (el_lon el) (case el_center el of None \<Rightarrow> None | Some c \<Rightarrow> center_lon c))"
  by (auto simp: element_place_def truthy_def Let_def split: option.splits)

lemma element_place_name:
  "element_place geodesic coords el = Some p \<Longrightarrow>
   name p = (case el_tags el of None \<Rightarrow> ''Unnamed''
             | Some t \<Rightarrow> (case t ''name'' of None \<Rightarrow> ''Unnamed'' | Some n \<Rightarrow> n))"
  by (auto simp: element_place_def Let_def split: option.splits if_splits)

text \<open>
  C8 fails on the code. An element with the direct coordinates latitude 51.4779 and
  longitude 0 (a point on the prime meridian) and no centroid has a usable coordinate,
  and the code skips it: the longitude 0 is false in \<^verbatim>\<open>el.get("lon") or ...\<close> and in
  \<^verbatim>\<open>if lat_p and lon_p\<close>. The same element a little to the east is included.
\<close>

theorem fetch_overpass_skips_zero_longitude:
  "returned (fetch_overpass (\<lambda>a b. 1)
     (\<lambda>attempt. Response (Some
        [\<lparr>el_tags = Some [''name'' \<mapsto> ''Meridian Cafe'', ''amenity'' \<mapsto> ''cafe''],
          el_lat = Some 51.4779, el_lon = Some 0, el_center = None\<rparr>]))
     Map.empty (51.48, 0.001) ''happy'' 2500) = Inr [] \<and>
   returned (fetch_overpass (\<lambda>a b. 1)
     (\<lambda>attempt. Response (Some
        [\<lparr>el_tags = Some [''name'' \<mapsto> ''Meridian Cafe'', ''amenity'' \<mapsto> ''cafe''],
          el_lat = Some 51.4779, el_lon = Some 0.0001, el_center = None\<rparr>]))
     Map.empty (51.48, 0.001) ''happy'' 2500) =
   Inr [\<lparr>name = ''Meridian Cafe'', lat = 51.4779, lon = 0.0001, distance = 1,
         tags = [''name'' \<mapsto> ''Meridian Cafe'', ''amenity'' \<mapsto> ''cafe'']\<rparr>]"
  by (simp add: fetch_overpass_def MOOD_TAGS_EXTENDED_def upt_conv_Cons List.map_filter_simps
      element_place_def py_or_def truthy_def Let_def)

section \<open>Properties of the cache key\<close>

lemma round_half_even_cell:
  assumes "\<bar>s - of_int k\<bar> < 1 / 2"
  shows "round_half_even s = k"
proof -
  let ?f = "\<lfloor>s\<rfloor>"
  note b = assms [unfolded abs_less_iff]
  have up: "s - of_int k < 1 / 2" and dn: "- (s - of_int k) < 1 / 2"
    using b by blast+
  have lo: "of_int ?f \<le> s" and hi: "s < of_int ?f + 1" by linarith+
  have "(of_int ?f :: real) < of_int k + 1" using up lo by linarith
  then have f_le: "?f \<le> k" by linarith
  have "(of_int k :: real) - 2 < of_int ?f" using dn hi by linarith
  then have f_ge: "k - 1 \<le> ?f" by linarith
  from f_le f_ge consider "?f = k" | "?f = k - 1" by linarith
  then show ?thesis
  proof cases
    case 1
    then show ?thesis using up by (simp add: round_half_even_def Let_def)
  next
    case 2
    have "s - of_int (k - 1) > 1 / 2" using dn by simp
    then show ?thesis using 2 by (simp add: round_half_even_def Let_def)
  qed
qed

lemma py_round_cell:
  "\<bar>x * 10 ^ n - of_int k\<bar> < 1 / 2 \<Longrightarrow> py_round x n = of_int k / 10 ^ n"
  by (simp add: py_round_def round_half_even_cell)

lemma same_cell_close:
  assumes "\<bar>(x::real) * 10 ^ 4 - of_int k\<bar> < 1 / 2" "\<bar>(y::real) * 10 ^ 4 - of_int k\<bar> < 1 / 2"
  shows "\<bar>x - y\<bar> < 1 / 10 ^ 4"
proof -
  note bx = assms(1) [unfolded abs_less_iff] and by' = assms(2) [unfolded abs_less_iff]
  have x1: "x * 10 ^ 4 - of_int k < 1 / 2" and x2: "- (x * 10 ^ 4 - of_int k) < 1 / 2"
    using bx by blast+
  have y1: "y * 10 ^ 4 - of_int k < 1 / 2" and y2: "- (y * 10 ^ 4 - of_int k) < 1 / 2"
    using by' by blast+
  have "x * 10 ^ 4 - y * 10 ^ 4 < 1" "y * 10 ^ 4 - x * 10 ^ 4 < 1"
    using x1 x2 y1 y2 by linarith+
  then have "x - y < 1 / 10 ^ 4" "y - x < 1 / 10 ^ 4" by simp_all
  then show ?thesis unfolding abs_less_iff by simp
qed

lemma great_circle_same_meridian:
  assumes "snd a = snd b" "0 \<le> fst b - fst a" "fst b - fst a \<le> 180"
  shows "great_circle_m a b = 6371008.8 * ((fst b - fst a) * pi / 180)"
proof -
  define t where "t = (fst b - fst a) * pi / 180 / 2"
  have t0: "0 \<le> t" using assms(2) by (simp add: t_def)
  have "(fst b - fst a) * pi \<le> 180 * pi" using assms(3) by simp
  then have t1: "t \<le> pi / 2" by (simp add: t_def)
  have s0: "0 \<le> sin t" using t0 t1 pi_ge_zero by (intro sin_ge_zero) linarith+
  have "great_circle_m a b = 2 * 6371008.8 * arcsin (sqrt ((sin t)\<^sup>2))"
    using assms(1) by (simp add: great_circle_m_def Let_def t_def)
  also have "sqrt ((sin t)\<^sup>2) = sin t" using s0 by simp
  also have "arcsin (sin t) = t" using t0 t1 by (intro arcsin_sin) linarith+
  finally show ?thesis by (simp add: t_def)
qed

lemma overpass_attempts_success:
  "\<exists>a \<in> set xs. provider a \<noteq> RequestException \<Longrightarrow>
   \<exists>data sl n. overpass_attempts provider retries xs = (Some data, sl, n)"
proof (induction xs)
  case Nil
  then show ?case by simp
next
  case (Cons a xs)
  show ?case
  proof (cases "provider a")
    case (Response data)
    then show ?thesis by simp
  next
    case RequestException
    with Cons.prems have "\<exists>a \<in> set xs. provider a \<noteq> RequestException" by auto
    from Cons.IH [OF this] obtain data sl n where
      "overpass_attempts provider retries xs = (Some data, sl, n)" by blast
    with RequestException show ?thesis by simp
  qed
qed

lemma fetch_overpass_populates:
  assumes "mood \<in> fst ` set MOOD_TAGS_EXTENDED"
    and "\<exists>a \<in> {1..3}. provider a \<noteq> RequestException"
  shows "\<exists>places. returned (fetch_overpass geodesic provider CACHE coords mood radius_m) = Inr places \<and>
           cache_after (fetch_overpass geodesic provider CACHE coords mood radius_m)
             (cache_key coords mood radius_m) = Some places"
proof (cases "CACHE (cache_key coords mood radius_m)")
  case (Some cached)
  then show ?thesis by (simp add: fetch_overpass_def)
next
  case None
  from assms(1) obtain query_tags where
    m: "map_of MOOD_TAGS_EXTENDED mood = Some query_tags"
    by (auto simp: MOOD_TAGS_EXTENDED_def)
  have "\<exists>a \<in> set [1..<3 + 1]. provider a \<noteq> RequestException" using assms(2) by auto
  from overpass_attempts_success [OF this] obtain data sl n where
    a: "overpass_attempts provider 3 [1..<3 + 1] = (Some data, sl, n)" by blast
  show ?thesis unfolding fetch_overpass_def using None m a by (simp add: Let_def)
qed

lemma fetch_overpass_hit:
  "CACHE (cache_key coords mood radius_m) = Some places \<Longrightarrow>
   fetch_overpass geodesic provider CACHE coords mood radius_m =
     \<lparr>returned = Inr places, cache_after = CACHE, slept = [], requests = 0\<rparr>"
  by (simp add: fetch_overpass_def)

text \<open>
  C2 fails on the code. The points (1/32768, 0) and (1/16384, 0), in degrees, lie on
  one meridian less than 5 meters apart; their latitudes round to 0.0 and 0.0001, so
  the cache keys differ, and after a first search at the one has filled the cache, the
  search at the other asks the provider.
\<close>

theorem nearby_coordinates_different_cache_key:
  "great_circle_m (1 / 32768, 0) (1 / 16384, 0) \<le> 11 \<and>
   cache_key (1 / 32768, 0) ''happy'' 2500 \<noteq> cache_key (1 / 16384, 0) ''happy'' 2500 \<and>
   requests (fetch_overpass (\<lambda>a b. 0) (\<lambda>attempt. Response (Some []))
     (cache_after (fetch_overpass (\<lambda>a b. 0) (\<lambda>attempt. Response (Some [])) Map.empty
        (1 / 32768, 0) ''happy'' 2500))
     (1 / 16384, 0) ''happy'' 2500) = 1"
proof -
  have "great_circle_m (1 / 32768, 0) (1 / 16384, 0) =
          6371008.8 * ((1 / 16384 - 1 / 32768) * pi / 180)"
    using great_circle_same_meridian [of "(1 / 32768, 0)" "(1 / 16384, 0)"] by simp
  also have "\<dots> \<le> 11" using pi_less_4 by simp
  finally have gc: "great_circle_m (1 / 32768, 0) (1 / 16384, 0) \<le> 11" .
  have r1: "py_round (1 / 32768) 4 = 0"
    using py_round_cell [of "1 / 32768" 4 0] by simp
  have r2: "py_round (1 / 16384) 4 = 1 / 10000"
    using py_round_cell [of "1 / 16384" 4 1] by simp
  have r0: "py_round 0 4 = 0"
    using py_round_cell [of 0 4 0] by simp
  have keys: "cache_key (1 / 32768, 0) ''happy'' 2500 \<noteq> cache_key (1 / 16384, 0) ''happy'' 2500"
    by (simp add: cache_key_def r1 r2)
  have req: "requests (fetch_overpass (\<lambda>a b. 0) (\<lambda>attempt. Response (Some []))
     (cache_after (fetch_overpass (\<lambda>a b. 0) (\<lambda>attempt. Response (Some [])) Map.empty
        (1 / 32768, 0) ''happy'' 2500))
     (1 / 16384, 0) ''happy'' 2500) = 1"
    by (simp add: fetch_overpass_def cache_key_def r0 r1 r2 MOOD_TAGS_EXTENDED_def
        upt_conv_Cons List.map_filter_simps)
  show ?thesis using gc keys req by blast
qed

text \<open>
  C2 as amended. Two coordinate pairs in the same cell of the rounding grid, that is,
  with latitudes less than 0.00005 degrees from one multiple \<open>k / 10000\<close> and
  longitudes less than 0.00005 degrees from one multiple \<open>m / 10000\<close> (so less than
  0.0001 degrees apart in each), have the same cache key for every mood and radius;
  and when the first search returns places (from the cache, or from the provider for a
  mood of the catalog with an attempt that succeeds), the second search returns the
  same list from the cache without a provider request.
\<close>

theorem same_cell_same_cache_key:
  assumes "\<bar>lat1 * 10 ^ 4 - of_int k\<bar> < 1 / 2" and "\<bar>lat2 * 10 ^ 4 - of_int k\<bar> < 1 / 2"
    and "\<bar>lon1 * 10 ^ 4 - of_int m\<bar> < 1 / 2" and "\<bar>lon2 * 10 ^ 4 - of_int m\<bar> < 1 / 2"
    and "mood \<in> fst ` set MOOD_TAGS_EXTENDED"
    and "\<exists>a \<in> {1..3}. provider a \<noteq> RequestException"
  shows "cache_key (lat1, lon1) mood radius_m = cache_key (lat2, lon2) mood radius_m \<and>
         \<bar>lat1 - lat2\<bar> < 1 / 10 ^ 4 \<and> \<bar>lon1 - lon2\<bar> < 1 / 10 ^ 4 \<and>
         returned (fetch_overpass geodesic provider'
            (cache_after (fetch_overpass geodesic provider CACHE (lat1, lon1) mood radius_m))
            (lat2, lon2) mood radius_m) =
           returned (fetch_overpass geodesic provider CACHE (lat1, lon1) mood radius_m) \<and>
         requests (fetch_overpass geodesic provider'
            (cache_after (fetch_overpass geodesic provider CACHE (lat1, lon1) mood radius_m))
            (lat2, lon2) mood radius_m) = 0"
proof -
  have keys: "cache_key (lat1, lon1) mood radius_m = cache_key (lat2, lon2) mood radius_m"
    using assms(1-4) by (simp add: cache_key_def py_round_cell)
  from fetch_overpass_populates [OF assms(5,6), of geodesic CACHE "(lat1, lon1)" radius_m]
  obtain places where
    ret: "returned (fetch_overpass geodesic provider CACHE (lat1, lon1) mood radius_m) =
            Inr places" and
    c: "cache_after (fetch_overpass geodesic provider CACHE (lat1, lon1) mood radius_m)
          (cache_key (lat1, lon1) mood radius_m) = Some places"
    by blast
  from c have c2:
    "cache_after (fetch_overpass geodesic provider CACHE (lat1, lon1) mood radius_m)
          (cache_key (lat2, lon2) mood radius_m) = Some places"
    by (simp only: keys)
  have hit: "fetch_overpass geodesic provider'
            (cache_after (fetch_overpass geodesic provider CACHE (lat1, lon1) mood radius_m))
            (lat2, lon2) mood radius_m =
           \<lparr>returned = Inr places,
              cache_after =
                cache_after (fetch_overpass geodesic provider CACHE (lat1, lon1) mood radius_m),
              slept = [], requests = 0\<rparr>"
    using c2 by (rule fetch_overpass_hit)
  show ?thesis
    using keys same_cell_close [OF assms(1,2)] same_cell_close [OF assms(3,4)] ret hit
    by simp
qed

theorem same_cell_same_cache_key_witness:
  "cache_key (47.60621, - 122.33211) ''happy'' 2500 =
     cache_key (47.60624, - 122.33213) ''happy'' 2500 \<and>
   requests (fetch_overpass (\<lambda>a b. 0) (\<lambda>attempt. RequestException)
      (cache_after (fetch_overpass (\<lambda>a b. 0) (\<lambda>attempt. Response (Some [])) Map.empty
         (47.60621, - 122.33211) ''happy'' 2500))
      (47.60624, - 122.33213) ''happy'' 2500) = 0"
proof -
  have h1: "\<bar>47.60621 * 10 ^ 4 - of_int 476062\<bar> < (1 / 2 :: real)" by simp
  have h2: "\<bar>47.60624 * 10 ^ 4 - of_int 476062\<bar> < (1 / 2 :: real)" by simp
  have h3: "\<bar>- 122.33211 * 10 ^ 4 - of_int (- 1223321)\<bar> < (1 / 2 :: real)" by simp
  have h4: "\<bar>- 122.33213 * 10 ^ 4 - of_int (- 1223321)\<bar> < (1 / 2 :: real)" by simp
  have h5: "''happy'' \<in> fst ` set MOOD_TAGS_EXTENDED"
    by (simp add: MOOD_TAGS_EXTENDED_def)
  have h6: "\<exists>a \<in> {1..3::nat}. (\<lambda>attempt. Response (Some [])) a \<noteq> RequestException"
    by (rule bexI [of _ 1]) simp_all
  show ?thesis
    using same_cell_same_cache_key [OF h1 h2 h3 h4 h5 h6,
        of 2500 "\<lambda>a b. 0" "\<lambda>attempt. RequestException" Map.empty]
    by blast
qed

section \<open>Properties of loading the cache\<close>

lemma load_cache_missing_or_not_json:
  "load_cache py_eval FileMissing = Inr Map.empty"
  "load_cache py_eval NotJson = Inr Map.empty"
  by (simp_all add: load_cache_def)

lemma load_items_keys_evaluate:
  "\<forall>k \<in> fst ` set kvs. \<exists>key. py_eval k = Inr key \<Longrightarrow>
   \<exists>c'. load_items py_eval kvs c = Inr c'"
proof (induction kvs arbitrary: c)
  case Nil
  then show ?case by simp
next
  case (Cons kv kvs)
  obtain k v where kv: "kv = (k, v)" by (cases kv)
  from Cons.prems kv obtain key where key: "py_eval k = Inr key" by auto
  from Cons.prems have "\<forall>k \<in> fst ` set kvs. \<exists>key. py_eval k = Inr key" by auto
  from Cons.IH [OF this] obtain c' where "load_items py_eval kvs (c(key \<mapsto> v)) = Inr c'"
    by blast
  then show ?case using kv key by simp
qed

lemma load_items_key_raises:
  "(k, v) \<in> set kvs \<Longrightarrow> py_eval k = Inl x \<Longrightarrow> \<exists>x'. load_items py_eval kvs c = Inl x'"
proof (induction kvs arbitrary: c)
  case Nil
  then show ?case by simp
next
  case (Cons kv kvs)
  obtain k' v' where kv: "kv = (k', v')" by (cases kv)
  show ?case
  proof (cases "py_eval k'")
    case (Inl x0)
    then show ?thesis using kv by simp
  next
    case (Inr key)
    with Cons.prems kv have "(k, v) \<in> set kvs" by auto
    from Cons.IH [OF this Cons.prems(2)] obtain x' where
      "load_items py_eval kvs (c(key \<mapsto> v')) = Inl x'" by blast
    then show ?thesis using kv Inr by simp
  qed
qed

text \<open>
  C3 does not hold of \<^verbatim>\<open>load_cache\<close>. A cache file whose content is the JSON text
  \<^verbatim>\<open>[]\<close> is decoded without error, and \<^verbatim>\<open>tmp.items()\<close> then raises \<open>AttributeError\<close>,
  which the \<^verbatim>\<open>except\<close> clause does not catch: the exception leaves \<^verbatim>\<open>load_cache\<close>,
  whatever \<^verbatim>\<open>eval\<close> does, instead of the cache being set to the empty table. The same
  holds of a JSON object with a key that \<^verbatim>\<open>eval\<close> rejects, as the key
  \<^verbatim>\<open>hello world\<close>.
\<close>

theorem load_cache_raises_on_json_array:
  "load_cache py_eval (Json (JArr [])) = Inl AttributeError \<and>
   load_cache (\<lambda>k. if k = ''hello world'' then Inl EvalError else Inr k)
     (Json (JObj [(''hello world'', JArr [])])) = Inl EvalError"
  by (simp add: load_cache_def)

section \<open>Properties of the favorites\<close>

lemma fav_names_simps:
  "fav_names [] = []"
  "fav_names (NotDict # l) = fav_names l"
  "fav_names (Fav None t # l) = fav_names l"
  "fav_names (Fav (Some n) t # l) = n # fav_names l"
  "fav_names (l @ l') = fav_names l @ fav_names l'"
  by (simp_all add: fav_names_def List.map_filter_def)

lemma any_named_Inr:
  "any_named l n = Inr b \<Longrightarrow> b = (n \<in> set (fav_names l))"
  by (induction l n rule: any_named.induct) (auto simp: fav_names_simps split: if_splits)

lemma favorite_scan_Inr:
  "favorite_scan l mood places = Inr r \<Longrightarrow>
   r = find (\<lambda>place. MoodInPlace (tags place) mood = Inr True \<and>
                      name place \<notin> set (fav_names l)) places"
proof (induction places)
  case Nil
  then show ?case by simp
next
  case (Cons place rest)
  show ?case
  proof (cases "MoodInPlace (tags place) mood")
    case (Inl x)
    with Cons.prems show ?thesis by simp
  next
    case (Inr matches)
    show ?thesis
    proof (cases matches)
      case False
      with Inr Cons show ?thesis by simp
    next
      case True
      show ?thesis
      proof (cases "any_named l (name place)")
        case (Inl x)
        with Inr True Cons.prems show ?thesis by simp
      next
        case present: (Inr present)
        from any_named_Inr [OF present] have pr: "present = (name place \<in> set (fav_names l))" .
        show ?thesis using Inr True present pr Cons by (cases present) simp_all
      qed
    qed
  qed
qed

lemma new_favorite_Some:
  assumes "new_favorite p places mood = Some place"
  shows "name place \<notin> set (fav_names (fav_list_of p mood))"
    and "MoodInPlace (tags place) mood = Inr True"
    and "place \<in> set places"
proof -
  from assms obtain i where i: "i < length places"
    "MoodInPlace (tags (places ! i)) mood = Inr True \<and>
     name (places ! i) \<notin> set (fav_names (fav_list_of p mood))"
    "place = places ! i"
    unfolding new_favorite_def find_Some_iff by blast
  show "name place \<notin> set (fav_names (fav_list_of p mood))" using i by blast
  show "MoodInPlace (tags place) mood = Inr True" using i by blast
  show "place \<in> set places" using i by simp
qed

lemma new_favorite_cong:
  "fav_list_of p1 mood = fav_list_of p mood \<Longrightarrow>
   new_favorite p1 places mood = new_favorite p places mood"
  by (simp add: new_favorite_def)

lemma fav_list_of_set:
  "fav_list_of (p\<lparr>favorites := Some (favs(mood \<mapsto> l))\<rparr>) m =
     (if m = mood then l else (case favs m of None \<Rightarrow> [] | Some l' \<Rightarrow> l'))"
  by (simp add: fav_list_of_def)

lemma fav_list_of_setdefault:
  "(case (case favorites p of None \<Rightarrow> Map.empty | Some f \<Rightarrow> f) m of
      None \<Rightarrow> [] | Some l' \<Rightarrow> l') = fav_list_of p m"
  by (simp add: fav_list_of_def split: option.splits)

lemma favorites_for_mood_alt:
  "favorites_for_mood p places mood =
     (case favorite_scan (fav_list_of p mood) mood places of
        Inl x \<Rightarrow>
          (p\<lparr>favorites := Some ((case favorites p of None \<Rightarrow> Map.empty | Some f \<Rightarrow> f)
                                   (mood \<mapsto> fav_list_of p mood))\<rparr>, Some x)
      | Inr None \<Rightarrow>
          (p\<lparr>favorites := Some ((case favorites p of None \<Rightarrow> Map.empty | Some f \<Rightarrow> f)
                                   (mood \<mapsto> fav_list_of p mood))\<rparr>, None)
      | Inr (Some place) \<Rightarrow>
          (update_usage_counters
             (p\<lparr>favorites := Some ((case favorites p of None \<Rightarrow> Map.empty | Some f \<Rightarrow> f)
                (mood \<mapsto> fav_list_of p mood @ [Fav (Some (name place)) (tags place)]))\<rparr>)
             mood (name place),
           None))"
  unfolding favorites_for_mood_def Let_def fav_list_of_setdefault by (rule refl)

lemma fav_list_of_update_usage:
  "fav_list_of (update_usage_counters p mood n) m = fav_list_of p m"
  by (simp add: fav_list_of_def update_usage_counters_def Let_def)

lemma mood_count_update_usage:
  "mood_count (update_usage_counters p mood n) m =
     mood_count p m + (if m = mood then 1 else 0)"
  by (simp add: mood_count_def update_usage_counters_def Let_def split: option.splits)

lemma place_count_update_usage:
  "place_count (update_usage_counters p mood n) k =
     place_count p k + (if k = n then 1 else 0)"
  by (simp add: place_count_def update_usage_counters_def Let_def split: option.splits)

lemma counts_set_favorites:
  "mood_count (p\<lparr>favorites := f\<rparr>) m = mood_count p m"
  "place_count (p\<lparr>favorites := f\<rparr>) k = place_count p k"
  by (simp_all add: mood_count_def place_count_def)

text \<open>The three ways the body of the outer loop ends.\<close>

lemma favorites_for_mood_cases:
  assumes "favorites_for_mood p places mood = (p', x)"
  obtains
    (raised) e where "x = Some e"
      "\<forall>m. fav_list_of p' m = fav_list_of p m"
      "\<forall>m. mood_count p' m = mood_count p m"
      "\<forall>k. place_count p' k = place_count p k"
  | (none) "x = None" "new_favorite p places mood = None"
      "favorite_scan (fav_list_of p mood) mood places = Inr None"
      "\<forall>m. fav_list_of p' m = fav_list_of p m"
      "\<forall>m. mood_count p' m = mood_count p m"
      "\<forall>k. place_count p' k = place_count p k"
  | (added) place where "x = None" "new_favorite p places mood = Some place"
      "favorite_scan (fav_list_of p mood) mood places = Inr (Some place)"
      "\<forall>m. fav_list_of p' m =
         (if m = mood then fav_list_of p mood @ [Fav (Some (name place)) (tags place)]
          else fav_list_of p m)"
      "\<forall>m. mood_count p' m = mood_count p m + (if m = mood then 1 else 0)"
      "\<forall>k. place_count p' k = place_count p k + (if k = name place then 1 else 0)"
proof (cases "favorite_scan (fav_list_of p mood) mood places")
  case (Inl e)
  with assms have p': "p' = p\<lparr>favorites :=
      Some ((case favorites p of None \<Rightarrow> Map.empty | Some f \<Rightarrow> f)
              (mood \<mapsto> fav_list_of p mood))\<rparr>" and x: "x = Some e"
    by (simp_all add: favorites_for_mood_alt)
  have a: "\<forall>m. fav_list_of p' m = fav_list_of p m"
    unfolding p' by (simp add: fav_list_of_set fav_list_of_setdefault)
  have b: "\<forall>m. mood_count p' m = mood_count p m"
    unfolding p' by (simp add: counts_set_favorites)
  have c: "\<forall>k. place_count p' k = place_count p k"
    unfolding p' by (simp add: counts_set_favorites)
  show ?thesis using x a b c by (rule raised)
next
  case (Inr r)
  from favorite_scan_Inr [OF Inr] have r: "r = new_favorite p places mood"
    by (simp add: new_favorite_def)
  show ?thesis
  proof (cases r)
    case None
    with Inr assms have p': "p' = p\<lparr>favorites :=
        Some ((case favorites p of None \<Rightarrow> Map.empty | Some f \<Rightarrow> f)
                (mood \<mapsto> fav_list_of p mood))\<rparr>" and x: "x = None"
      by (simp_all add: favorites_for_mood_alt)
    have a: "\<forall>m. fav_list_of p' m = fav_list_of p m"
      unfolding p' by (simp add: fav_list_of_set fav_list_of_setdefault)
    have b: "\<forall>m. mood_count p' m = mood_count p m"
      unfolding p' by (simp add: counts_set_favorites)
    have c: "\<forall>k. place_count p' k = place_count p k"
      unfolding p' by (simp add: counts_set_favorites)
    have n: "new_favorite p places mood = None" using r None by simp
    have s: "favorite_scan (fav_list_of p mood) mood places = Inr None"
      using Inr None by simp
    show ?thesis using x n s a b c by (rule none)
  next
    case (Some place)
    with Inr assms have p': "p' = update_usage_counters
             (p\<lparr>favorites := Some ((case favorites p of None \<Rightarrow> Map.empty | Some f \<Rightarrow> f)
                (mood \<mapsto> fav_list_of p mood @ [Fav (Some (name place)) (tags place)]))\<rparr>)
             mood (name place)" and x: "x = None"
      by (simp_all add: favorites_for_mood_alt)
    have a: "\<forall>m. fav_list_of p' m =
                  (if m = mood
                   then fav_list_of p mood @ [Fav (Some (name place)) (tags place)]
                   else fav_list_of p m)"
      unfolding p'
      by (simp add: fav_list_of_update_usage fav_list_of_set fav_list_of_setdefault)
    have b: "\<forall>m. mood_count p' m = mood_count p m + (if m = mood then 1 else 0)"
      unfolding p' by (simp add: mood_count_update_usage counts_set_favorites)
    have c: "\<forall>k. place_count p' k = place_count p k + (if k = name place then 1 else 0)"
      unfolding p' by (simp add: place_count_update_usage counts_set_favorites)
    have n: "new_favorite p places mood = Some place" using r Some by simp
    have s: "favorite_scan (fav_list_of p mood) mood places = Inr (Some place)"
      using Inr Some by simp
    show ?thesis using x n s a b c by (rule added)
  qed
qed

lemma favorites_for_mood_None:
  assumes "favorites_for_mood p places mood = (p1, None)"
  shows "fav_list_of p1 m =
           fav_list_of p m @
             (if m = mood
              then (case new_favorite p places mood of
                      None \<Rightarrow> []
                    | Some place \<Rightarrow> [Fav (Some (name place)) (tags place)])
              else [])"
    and "mood_count p1 m =
           mood_count p m + (if m = mood \<and> new_favorite p places mood \<noteq> None then 1 else 0)"
    and "place_count p1 k =
           place_count p k +
             (if map_option name (new_favorite p places mood) = Some k then 1 else 0)"
proof -
  from assms have
    "fav_list_of p1 m =
           fav_list_of p m @
             (if m = mood
              then (case new_favorite p places mood of
                      None \<Rightarrow> []
                    | Some place \<Rightarrow> [Fav (Some (name place)) (tags place)])
              else []) \<and>
     mood_count p1 m =
           mood_count p m + (if m = mood \<and> new_favorite p places mood \<noteq> None then 1 else 0) \<and>
     place_count p1 k =
           place_count p k +
             (if map_option name (new_favorite p places mood) = Some k then 1 else 0)"
  proof (cases rule: favorites_for_mood_cases)
    case (raised e)
    then show ?thesis by simp
  next
    case none
    have "fav_list_of p1 m = fav_list_of p m" using none(4) by (rule spec)
    moreover have "mood_count p1 m = mood_count p m" using none(5) by (rule spec)
    moreover have "place_count p1 k = place_count p k" using none(6) by (rule spec)
    ultimately show ?thesis by (simp add: none(2))
  next
    case (added place)
    have "fav_list_of p1 m =
           (if m = mood then fav_list_of p mood @ [Fav (Some (name place)) (tags place)]
            else fav_list_of p m)" using added(4) by (rule spec)
    moreover have "mood_count p1 m = mood_count p m + (if m = mood then 1 else 0)"
      using added(5) by (rule spec)
    moreover have "place_count p1 k = place_count p k + (if k = name place then 1 else 0)"
      using added(6) by (rule spec)
    ultimately show ?thesis by (simp add: added(2) eq_commute [of k])
  qed
  then show
    "fav_list_of p1 m =
           fav_list_of p m @
             (if m = mood
              then (case new_favorite p places mood of
                      None \<Rightarrow> []
                    | Some place \<Rightarrow> [Fav (Some (name place)) (tags place)])
              else [])"
    and "mood_count p1 m =
           mood_count p m + (if m = mood \<and> new_favorite p places mood \<noteq> None then 1 else 0)"
    and "place_count p1 k =
           place_count p k +
             (if map_option name (new_favorite p places mood) = Some k then 1 else 0)"
    by blast+
qed

lemma main_favorites_step:
  assumes "main_favorites p (mood # rest) places = (p', None)"
  obtains p1 where "favorites_for_mood p places mood = (p1, None)"
    and "main_favorites p1 rest places = (p', None)"
proof -
  obtain p1 x where step: "favorites_for_mood p places mood = (p1, x)"
    by (cases "favorites_for_mood p places mood")
  show ?thesis
  proof (cases x)
    case None
    with assms step have "main_favorites p1 rest places = (p', None)" by simp
    with step None show ?thesis by (intro that [of p1]) simp_all
  next
    case (Some e)
    with assms step show ?thesis by simp
  qed
qed

lemma main_favorites_lists:
  assumes "distinct moods" and "main_favorites p moods places = (p', None)"
  shows "fav_list_of p' m =
            fav_list_of p m @
              (if m \<in> set moods
               then (case new_favorite p places m of
                       None \<Rightarrow> []
                     | Some place \<Rightarrow> [Fav (Some (name place)) (tags place)])
               else [])"
  using assms
proof (induction moods arbitrary: p)
  case Nil
  then show ?case by simp
next
  case (Cons mood rest)
  from Cons.prems(2) obtain p1 where
    step: "favorites_for_mood p places mood = (p1, None)" and
    run: "main_favorites p1 rest places = (p', None)"
    by (rule main_favorites_step)
  from Cons.prems(1) have d: "distinct rest" and nin: "mood \<notin> set rest" by simp_all
  note ih = Cons.IH [OF d run]
  note s = favorites_for_mood_None(1) [OF step, of m]
  show ?case
  proof (cases "m = mood")
    case True
    with nin have "m \<notin> set rest" by simp
    then have "fav_list_of p' m = fav_list_of p1 m" using ih by simp
    then show ?thesis using s True by simp
  next
    case False
    then have l: "fav_list_of p1 m = fav_list_of p m" using s by simp
    then have "new_favorite p1 places m = new_favorite p places m"
      by (rule new_favorite_cong)
    then show ?thesis using ih l False by simp
  qed
qed

lemma main_favorites_mood_count:
  assumes "distinct moods" and "main_favorites p moods places = (p', None)"
  shows "mood_count p' m =
            mood_count p m +
              (if m \<in> set moods \<and> new_favorite p places m \<noteq> None then 1 else 0)"
  using assms
proof (induction moods arbitrary: p)
  case Nil
  then show ?case by simp
next
  case (Cons mood rest)
  from Cons.prems(2) obtain p1 where
    step: "favorites_for_mood p places mood = (p1, None)" and
    run: "main_favorites p1 rest places = (p', None)"
    by (rule main_favorites_step)
  from Cons.prems(1) have d: "distinct rest" and nin: "mood \<notin> set rest" by simp_all
  note ih = Cons.IH [OF d run]
  note s = favorites_for_mood_None(2) [OF step, of m]
  note l = favorites_for_mood_None(1) [OF step, of m]
  show ?case
  proof (cases "m = mood")
    case True
    with nin have "m \<notin> set rest" by simp
    then have "mood_count p' m = mood_count p1 m" using ih by simp
    then show ?thesis using s True by simp
  next
    case False
    then have "fav_list_of p1 m = fav_list_of p m" using l by simp
    then have "new_favorite p1 places m = new_favorite p places m"
      by (rule new_favorite_cong)
    moreover have "mood_count p1 m = mood_count p m" using s False by simp
    ultimately show ?thesis using ih False by simp
  qed
qed

lemma main_favorites_place_count:
  assumes "distinct moods" and "main_favorites p moods places = (p', None)"
  shows "place_count p' k =
            place_count p k +
              int (length (filter (\<lambda>m. map_option name (new_favorite p places m) = Some k)
                             moods))"
  using assms
proof (induction moods arbitrary: p)
  case Nil
  then show ?case by simp
next
  case (Cons mood rest)
  from Cons.prems(2) obtain p1 where
    step: "favorites_for_mood p places mood = (p1, None)" and
    run: "main_favorites p1 rest places = (p', None)"
    by (rule main_favorites_step)
  from Cons.prems(1) have d: "distinct rest" and nin: "mood \<notin> set rest" by simp_all
  note ih = Cons.IH [OF d run]
  note s = favorites_for_mood_None(3) [OF step, of k]
  have nf: "new_favorite p1 places m = new_favorite p places m" if "m \<in> set rest" for m
  proof -
    from that nin have "m \<noteq> mood" by blast
    then have "fav_list_of p1 m = fav_list_of p m"
      using favorites_for_mood_None(1) [OF step, of m] by simp
    then show ?thesis by (rule new_favorite_cong)
  qed
  have fl: "filter (\<lambda>m. map_option name (new_favorite p1 places m) = Some k) rest =
            filter (\<lambda>m. map_option name (new_favorite p places m) = Some k) rest"
    by (rule filter_cong) (simp_all add: nf)
  have "place_count p' k =
          place_count p1 k +
            int (length (filter (\<lambda>m. map_option name (new_favorite p places m) = Some k) rest))"
    using ih unfolding fl .
  then show ?case using s by simp
qed
lemma any_named_total:
  "\<forall>t. Fav None t \<notin> set l \<Longrightarrow> \<exists>b. any_named l n = Inr b"
  by (induction l n rule: any_named.induct) auto

lemma favorite_scan_total:
  assumes "mood \<in> fst ` set MOOD_TAGS_EXTENDED" and "\<forall>t. Fav None t \<notin> set l"
  shows "\<exists>r. favorite_scan l mood places = Inr r"
proof (induction places)
  case Nil
  show ?case by simp
next
  case (Cons place rest)
  from assms(1) obtain kvs where "map_of MOOD_TAGS_EXTENDED mood = Some kvs"
    by (auto simp: MOOD_TAGS_EXTENDED_def)
  then obtain matches where m: "MoodInPlace (tags place) mood = Inr matches"
    by (simp add: MoodInPlace_def)
  from any_named_total [OF assms(2)] obtain present where
    a: "any_named l (name place) = Inr present" by blast
  from Cons obtain r where "favorite_scan l mood rest = Inr r" by blast
  then show ?case using m a by simp
qed

lemma main_favorites_returns:
  assumes "set moods \<subseteq> fst ` set MOOD_TAGS_EXTENDED"
    and "\<forall>m t. Fav None t \<notin> set (fav_list_of p m)"
  shows "snd (main_favorites p moods places) = None"
  using assms
proof (induction moods arbitrary: p)
  case Nil
  show ?case by simp
next
  case (Cons mood rest)
  obtain p1 x where step: "favorites_for_mood p places mood = (p1, x)"
    by (cases "favorites_for_mood p places mood")
  from Cons.prems have cat: "mood \<in> fst ` set MOOD_TAGS_EXTENDED" by simp
  from Cons.prems(2) have wf: "\<forall>t. Fav None t \<notin> set (fav_list_of p mood)" by simp
  from favorite_scan_total [OF cat wf] obtain r where
    "favorite_scan (fav_list_of p mood) mood places = Inr r" by blast
  with step have x: "x = None"
    by (cases r) (simp_all add: favorites_for_mood_alt)
  from step x have step': "favorites_for_mood p places mood = (p1, None)" by simp
  have wf1: "\<forall>m t. Fav None t \<notin> set (fav_list_of p1 m)"
  proof (intro allI)
    fix m t
    have old: "Fav None t \<notin> set (fav_list_of p m)" using Cons.prems(2) by blast
    note l = favorites_for_mood_None(1) [OF step', of m]
    show "Fav None t \<notin> set (fav_list_of p1 m)"
    proof (cases "new_favorite p places mood")
      case None
      then have "fav_list_of p1 m = fav_list_of p m" using l by simp
      then show ?thesis using old by simp
    next
      case (Some place)
      then have "set (fav_list_of p1 m) \<subseteq>
                   insert (Fav (Some (name place)) (tags place)) (set (fav_list_of p m))"
        using l by (cases "m = mood") auto
      then show ?thesis using old by auto
    qed
  qed
  from Cons.prems(1) have "set rest \<subseteq> fst ` set MOOD_TAGS_EXTENDED" by simp
  from Cons.IH [OF this wf1] show ?case using step x by simp
qed

text \<open>
  C10. In a search over distinct selected moods (the selection is a set turned into a
  list) whose favorites update ends without an exception, the favorite list of each
  selected mood grows by at most one entry, placed at its end: the entry of the first
  place of the combined list that matches the mood and whose name was not a favorite of
  the mood; the list of any other mood is unchanged. The counter of a mood in
  \<^verbatim>\<open>mood_usage\<close> goes up by one exactly when the mood is selected and got such an entry,
  and the counter of a place name in \<^verbatim>\<open>place_usage\<close> goes up by the number of selected
  moods that got an entry of that name: the two counters move together, once per
  entry added.
\<close>

theorem search_adds_at_most_one_favorite_per_mood:
  assumes "distinct moods" and "main_favorites p moods places = (p', None)"
  shows "fav_list_of p' mood =
           fav_list_of p mood @
             (if mood \<in> set moods
              then (case new_favorite p places mood of
                      None \<Rightarrow> []
                    | Some place \<Rightarrow> [Fav (Some (name place)) (tags place)])
              else []) \<and>
         mood_count p' mood =
           mood_count p mood +
             (if mood \<in> set moods \<and> new_favorite p places mood \<noteq> None then 1 else 0) \<and>
         place_count p' n =
           place_count p n +
             int (length (filter (\<lambda>m. map_option name (new_favorite p places m) = Some n)
                            moods))"
  by (intro conjI main_favorites_lists [OF assms] main_favorites_mood_count [OF assms]
      main_favorites_place_count [OF assms])

theorem search_adds_at_most_one_favorite_per_mood_witness:
  "\<exists>p'. main_favorites empty_profile [''happy'', ''sad'']
           [\<lparr>name = ''Central Perk'', lat = 47, lon = 8, distance = 1,
              tags = [''amenity'' \<mapsto> ''cafe'']\<rparr>,
            \<lparr>name = ''Diner'', lat = 47, lon = 8, distance = 2,
              tags = [''amenity'' \<mapsto> ''restaurant'']\<rparr>,
            \<lparr>name = ''Green Park'', lat = 47, lon = 8, distance = 3,
              tags = [''leisure'' \<mapsto> ''park'']\<rparr>] = (p', None) \<and>
        fav_list_of p' ''happy'' = [Fav (Some ''Central Perk'') [''amenity'' \<mapsto> ''cafe'']] \<and>
        mood_count p' ''happy'' = 1 \<and>
        place_count p' ''Central Perk'' = 1"
proof -
  let ?places = "[\<lparr>name = ''Central Perk'', lat = 47, lon = 8, distance = 1,
              tags = [''amenity'' \<mapsto> ''cafe'']\<rparr>,
            \<lparr>name = ''Diner'', lat = 47, lon = 8, distance = 2,
              tags = [''amenity'' \<mapsto> ''restaurant'']\<rparr>,
            \<lparr>name = ''Green Park'', lat = 47, lon = 8, distance = 3,
              tags = [''leisure'' \<mapsto> ''park'']\<rparr>]"
  have d: "distinct [''happy'', ''sad'']" by simp
  have cat: "set [''happy'', ''sad''] \<subseteq> fst ` set MOOD_TAGS_EXTENDED"
    by (simp add: MOOD_TAGS_EXTENDED_def)
  have wf: "\<forall>m t. Fav None t \<notin> set (fav_list_of empty_profile m)"
    by (simp add: fav_list_of_def empty_profile_def)
  obtain p' x where run0: "main_favorites empty_profile [''happy'', ''sad''] ?places = (p', x)"
    by (cases "main_favorites empty_profile [''happy'', ''sad''] ?places")
  from main_favorites_returns [OF cat wf, of ?places] run0 have "x = None" by simp
  with run0 have run: "main_favorites empty_profile [''happy'', ''sad''] ?places = (p', None)"
    by simp
  have l0: "fav_list_of empty_profile m = []" for m
    by (simp add: fav_list_of_def empty_profile_def)
  have nh: "new_favorite empty_profile ?places ''happy'' =
      Some \<lparr>name = ''Central Perk'', lat = 47, lon = 8, distance = 1,
              tags = [''amenity'' \<mapsto> ''cafe'']\<rparr>"
    by (simp add: new_favorite_def l0 fav_names_simps MoodInPlace_def MOOD_TAGS_EXTENDED_def)
  have ns: "new_favorite empty_profile ?places ''sad'' =
      Some \<lparr>name = ''Green Park'', lat = 47, lon = 8, distance = 3,
              tags = [''leisure'' \<mapsto> ''park'']\<rparr>"
    by (simp add: new_favorite_def l0 fav_names_simps MoodInPlace_def MOOD_TAGS_EXTENDED_def)
  have c0: "mood_count empty_profile m = 0" "place_count empty_profile m = 0" for m
    by (simp_all add: mood_count_def place_count_def empty_profile_def)
  from search_adds_at_most_one_favorite_per_mood [OF d run, of "''happy''" "''Central Perk''"]
  have "fav_list_of p' ''happy'' = [Fav (Some ''Central Perk'') [''amenity'' \<mapsto> ''cafe'']] \<and>
        mood_count p' ''happy'' = 1 \<and>
        place_count p' ''Central Perk'' = 1"
    by (simp add: nh ns l0 c0)
  with run show ?thesis by blast
qed

section \<open>At most one favorite of a name under a mood\<close>

lemma count_list_filter_le: "count_list (filter P xs) x \<le> count_list xs x"
  by (induction xs) simp_all

lemma count_list_snoc: "count_list (xs @ [a]) x = count_list xs x + (if a = x then 1 else 0)"
  by (induction xs) simp_all

lemma keep_others_names:
  "keep_others l n = Inr kept \<Longrightarrow> fav_names kept = filter (\<lambda>m. m \<noteq> n) (fav_names l)"
proof (induction l n arbitrary: kept rule: keep_others.induct)
  case (1 place_name)
  then show ?case by (simp add: fav_names_simps)
next
  case (2 favs place_name)
  then show ?case by simp
next
  case (3 n' t favs place_name)
  from "3.prems" obtain kept' where k: "keep_others favs place_name = Inr kept'"
    by (cases "keep_others favs place_name") simp_all
  note ih = "3.IH" [OF k]
  from "3.prems" k have kept: "kept = (if n' \<noteq> Some place_name then Fav n' t # kept' else kept')"
    by simp
  show ?case
  proof (cases n')
    case None
    then show ?thesis using kept ih by (simp add: fav_names_simps)
  next
    case (Some m)
    then show ?thesis using kept ih by (simp add: fav_names_simps)
  qed
qed

lemma any_named_append:
  "any_named l n = Inr False \<Longrightarrow> any_named (l @ [Fav (Some n) t]) n = Inr True"
  by (induction l n rule: any_named.induct) (simp_all split: if_splits)

lemma favorites_for_mood_count:
  assumes "favorites_for_mood p places mood = (p', x)"
    and "\<forall>m n. favorite_count p m n \<le> 1"
  shows "favorite_count p' m n \<le> 1"
  using assms(1)
proof (cases rule: favorites_for_mood_cases)
  case (raised e)
  then have "fav_list_of p' m = fav_list_of p m" by blast
  then show ?thesis using assms(2) by (simp add: favorite_count_def)
next
  case none
  then have "fav_list_of p' m = fav_list_of p m" by blast
  then show ?thesis using assms(2) by (simp add: favorite_count_def)
next
  case (added place)
  have l: "fav_list_of p' m =
         (if m = mood then fav_list_of p mood @ [Fav (Some (name place)) (tags place)]
          else fav_list_of p m)" using added(4) by (rule spec)
  have old: "count_list (fav_names (fav_list_of p m)) n \<le> 1"
    using assms(2) by (simp add: favorite_count_def)
  show ?thesis
  proof (cases "m = mood \<and> name place = n")
    case True
    from new_favorite_Some(1) [OF added(2)] True
    have "count_list (fav_names (fav_list_of p m)) n = 0" by (simp add: count_list_0_iff)
    then show ?thesis using l True
      by (simp add: favorite_count_def fav_names_simps count_list_snoc)
  next
    case False
    then show ?thesis using l old
      by (auto simp: favorite_count_def fav_names_simps count_list_snoc)
  qed
qed

lemma main_favorites_count:
  assumes "main_favorites p moods places = (p', x)"
    and "\<forall>m n. favorite_count p m n \<le> 1"
  shows "\<forall>m n. favorite_count p' m n \<le> 1"
  using assms
proof (induction moods arbitrary: p)
  case Nil
  then show ?case by simp
next
  case (Cons mood rest)
  obtain p1 y where step: "favorites_for_mood p places mood = (p1, y)"
    by (cases "favorites_for_mood p places mood")
  have inv1: "\<forall>m n. favorite_count p1 m n \<le> 1"
    using favorites_for_mood_count [OF step Cons.prems(2)] by blast
  show ?case
  proof (cases y)
    case None
    with Cons.prems(1) step have "main_favorites p1 rest places = (p', x)" by simp
    from Cons.IH [OF this inv1] show ?thesis .
  next
    case (Some e)
    with Cons.prems(1) step have "p' = p1" by simp
    then show ?thesis using inv1 by simp
  qed
qed

lemma remove_favorite_count:
  assumes "remove_favorite markup_error p mood place_name = (p', x)"
  shows "favorite_count p' m n \<le> favorite_count p m n"
proof (cases "favorites p")
  case None
  with assms show ?thesis by (simp add: remove_favorite_def)
next
  case (Some favs)
  show ?thesis
  proof (cases "favs mood")
    case None
    with Some assms show ?thesis by (simp add: remove_favorite_def)
  next
    case fl: (Some fav_list)
    show ?thesis
    proof (cases "keep_others fav_list place_name")
      case (Inl e)
      with Some fl assms show ?thesis by (simp add: remove_favorite_def)
    next
      case (Inr kept)
      with Some fl assms have p': "p' = p\<lparr>favorites := Some (favs(mood \<mapsto> kept))\<rparr>"
        by (simp add: remove_favorite_def)
      have old: "fav_list_of p m = (case favs m of None \<Rightarrow> [] | Some l' \<Rightarrow> l')"
        using Some by (simp add: fav_list_of_def)
      show ?thesis
      proof (cases "m = mood")
        case True
        have "fav_list_of p' m = kept" unfolding p' using True by (simp add: fav_list_of_set)
        moreover have "fav_list_of p m = fav_list" using old fl True by simp
        ultimately show ?thesis
          using keep_others_names [OF Inr]
          by (simp add: favorite_count_def count_list_filter_le)
      next
        case False
        have "fav_list_of p' m = fav_list_of p m"
          unfolding p' using False old by (simp add: fav_list_of_set)
        then show ?thesis by (simp add: favorite_count_def)
      qed
    qed
  qed
qed

lemma save_history_favorites:
  "save_history p entry = Inr p' \<Longrightarrow> fav_list_of p' m = fav_list_of p m"
  by (auto simp: save_history_def fav_list_of_def Let_def split: option.splits)

lemma apply_operation_count:
  assumes "apply_operation markup_error p action = (p', x)"
    and "\<forall>m n. favorite_count p m n \<le> 1"
  shows "\<forall>m n. favorite_count p' m n \<le> 1"
proof (cases action)
  case (SaveHistory entry)
  show ?thesis
  proof (cases "save_history p entry")
    case (Inl e)
    with SaveHistory assms show ?thesis by simp
  next
    case (Inr p1)
    with SaveHistory assms(1) have "p' = p1" by simp
    with Inr have "fav_list_of p' m = fav_list_of p m" for m
      by (simp add: save_history_favorites)
    then show ?thesis using assms(2) by (simp add: favorite_count_def)
  qed
next
  case (Favorites moods places)
  with assms(1) have "main_favorites p moods places = (p', x)" by simp
  from main_favorites_count [OF this assms(2)] show ?thesis .
next
  case (RemoveFavorite mood place_name)
  with assms(1) have r: "remove_favorite markup_error p mood place_name = (p', x)" by simp
  show ?thesis
  proof (intro allI)
    fix m n
    have "favorite_count p' m n \<le> favorite_count p m n"
      using r by (rule remove_favorite_count)
    also have "\<dots> \<le> 1" using assms(2) by blast
    finally show "favorite_count p' m n \<le> 1" .
  qed
qed

lemma apply_operations_count:
  assumes "apply_operations markup_error p actions = (p', x)"
    and "\<forall>m n. favorite_count p m n \<le> 1"
  shows "\<forall>m n. favorite_count p' m n \<le> 1"
  using assms
proof (induction actions arbitrary: p)
  case Nil
  then show ?case by simp
next
  case (Cons action rest)
  obtain p1 y where step: "apply_operation markup_error p action = (p1, y)"
    by (cases "apply_operation markup_error p action")
  note inv1 = apply_operation_count [OF step Cons.prems(2)]
  show ?case
  proof (cases y)
    case None
    with Cons.prems(1) step have "apply_operations markup_error p1 rest = (p', x)" by simp
    from Cons.IH [OF this inv1] show ?thesis .
  next
    case (Some e)
    with Cons.prems(1) step have "p' = p1" by simp
    then show ?thesis using inv1 by simp
  qed
qed

lemma favorites_for_mood_sets_key:
  assumes "favorites_for_mood p places mood = (p', x)"
  shows "\<exists>favs. favorites p' = Some favs \<and> favs mood = Some (fav_list_of p' mood)"
proof (cases "favorite_scan (fav_list_of p mood) mood places")
  case (Inl e)
  with assms show ?thesis by (auto simp: favorites_for_mood_alt fav_list_of_def)
next
  case (Inr r)
  with assms show ?thesis
    by (cases r)
       (auto simp: favorites_for_mood_alt fav_list_of_def update_usage_counters_def Let_def)
qed

lemma favorites_for_mood_noop:
  assumes "favorites p = Some favs" and "favs mood = Some (fav_list_of p mood)"
    and "favorite_scan (fav_list_of p mood) mood places = Inr None"
  shows "favorites_for_mood p places mood = (p, None)"
proof -
  have "favs(mood \<mapsto> fav_list_of p mood) = favs" using assms(2) by (rule map_upd_triv)
  then have "p\<lparr>favorites := Some ((case favorites p of None \<Rightarrow> Map.empty | Some f \<Rightarrow> f)
                                   (mood \<mapsto> fav_list_of p mood))\<rparr> = p"
    using assms(1) by simp
  then show ?thesis using assms(3) by (simp add: favorites_for_mood_alt)
qed

lemma favorite_scan_single:
  assumes "MoodInPlace (tags place) mood = Inr True"
  shows "favorite_scan l mood [place] =
           (case any_named l (name place) of
              Inl e \<Rightarrow> Inl e
            | Inr present \<Rightarrow> if present then Inr None else Inr (Some place))"
  using assms by (simp split: sum.splits)

text \<open>
  C9. Starting from a profile with at most one favorite of any name under any mood (the
  profile of a first run has none), every run of the operations on the profile, to its
  end or to the exception that ends it, leaves at most one favorite of any name under
  any mood. Inserting a place that matches the mood, as the favorites update does for a
  search whose combined list is that place: when a favorite of that name is already
  under the mood its list is unchanged, otherwise the entry is appended; either way
  there is then exactly one favorite of that name under the mood, and a second
  insertion of the place changes nothing in the profile.
\<close>

theorem favorites_at_most_one_per_mood_and_name:
  assumes "\<forall>m n. favorite_count p m n \<le> 1"
    and "apply_operations markup_error p actions = (q, x)"
    and "MoodInPlace (tags place) mood = Inr True"
    and "favorites_for_mood q [place] mood = (q1, None)"
  shows "favorite_count q m n \<le> 1 \<and>
         fav_list_of q1 mood =
           (if name place \<in> set (fav_names (fav_list_of q mood)) then fav_list_of q mood
            else fav_list_of q mood @ [Fav (Some (name place)) (tags place)]) \<and>
         favorite_count q1 mood (name place) = 1 \<and>
         favorites_for_mood q1 [place] mood = (q1, None)"
proof -
  have inv: "\<forall>m n. favorite_count q m n \<le> 1"
    using assms(2,1) by (rule apply_operations_count)
  from favorites_for_mood_sets_key [OF assms(4)] obtain favs1 where
    key: "favorites q1 = Some favs1" "favs1 mood = Some (fav_list_of q1 mood)" by blast
  note single = favorite_scan_single [OF assms(3)]
  from assms(4) have rest:
    "fav_list_of q1 mood =
           (if name place \<in> set (fav_names (fav_list_of q mood)) then fav_list_of q mood
            else fav_list_of q mood @ [Fav (Some (name place)) (tags place)]) \<and>
     favorite_count q1 mood (name place) = 1 \<and>
     favorite_scan (fav_list_of q1 mood) mood [place] = Inr None"
  proof (cases rule: favorites_for_mood_cases)
    case (raised e)
    then show ?thesis by simp
  next
    case none
    have l: "fav_list_of q1 mood = fav_list_of q mood" using none(4) by (rule spec)
    from none(3) single [of "fav_list_of q mood"]
    have "any_named (fav_list_of q mood) (name place) = Inr True"
      by (auto split: sum.splits if_splits)
    from any_named_Inr [OF this]
    have mem: "name place \<in> set (fav_names (fav_list_of q mood))" by simp
    then have "count_list (fav_names (fav_list_of q mood)) (name place) \<noteq> 0"
      by (simp add: count_list_0_iff)
    moreover have "count_list (fav_names (fav_list_of q mood)) (name place) \<le> 1"
      using inv by (simp add: favorite_count_def)
    ultimately have "favorite_count q1 mood (name place) = 1"
      using l by (simp add: favorite_count_def)
    then show ?thesis using l mem none(3) by simp
  next
    case (added place')
    from new_favorite_Some(3) [OF added(2)] have pl: "place' = place" by simp
    have l: "fav_list_of q1 mood =
               fav_list_of q mood @ [Fav (Some (name place)) (tags place)]"
      using added(4) [THEN spec, of mood] pl by simp
    from new_favorite_Some(1) [OF added(2)] pl
    have nmem: "name place \<notin> set (fav_names (fav_list_of q mood))" by simp
    then have "count_list (fav_names (fav_list_of q mood)) (name place) = 0"
      by (simp add: count_list_0_iff)
    then have c: "favorite_count q1 mood (name place) = 1"
      using l by (simp add: favorite_count_def fav_names_simps count_list_snoc)
    from added(3) pl single [of "fav_list_of q mood"]
    have "any_named (fav_list_of q mood) (name place) = Inr False"
      by (auto split: sum.splits if_splits)
    from any_named_append [OF this, of "tags place"]
    have "any_named (fav_list_of q1 mood) (name place) = Inr True" using l by simp
    then have "favorite_scan (fav_list_of q1 mood) mood [place] = Inr None"
      using single [of "fav_list_of q1 mood"] by simp
    then show ?thesis using l nmem c by simp
  qed
  have again: "favorites_for_mood q1 [place] mood = (q1, None)"
    using key rest by (intro favorites_for_mood_noop) blast+
  have first: "favorite_count q m n \<le> 1" using inv by blast
  show ?thesis using first rest again by blast
qed

theorem favorites_at_most_one_per_mood_and_name_witness:
  "apply_operations rejects_closing_tag empty_profile
     [Favorites [''happy'']
        [\<lparr>name = ''Central Perk'', lat = 47, lon = 8, distance = 1,
           tags = [''amenity'' \<mapsto> ''cafe'']\<rparr>],
      RemoveFavorite ''sad'' ''Green Park''] =
     (\<lparr>history = Some [],
       favorites = Some [''happy'' \<mapsto> [Fav (Some ''Central Perk'') [''amenity'' \<mapsto> ''cafe'']]],
       mood_usage = Some [''happy'' \<mapsto> 1],
       place_usage = Some [''Central Perk'' \<mapsto> 1]\<rparr>, None) \<and>
   (\<exists>q1. favorites_for_mood
      \<lparr>history = Some [],
       favorites = Some [''happy'' \<mapsto> [Fav (Some ''Central Perk'') [''amenity'' \<mapsto> ''cafe'']]],
       mood_usage = Some [''happy'' \<mapsto> 1],
       place_usage = Some [''Central Perk'' \<mapsto> 1]\<rparr>
      [\<lparr>name = ''Diner'', lat = 47, lon = 8, distance = 2,
         tags = [''amenity'' \<mapsto> ''restaurant'']\<rparr>] ''happy'' = (q1, None) \<and>
      fav_list_of q1 ''happy'' =
        [Fav (Some ''Central Perk'') [''amenity'' \<mapsto> ''cafe''],
         Fav (Some ''Diner'') [''amenity'' \<mapsto> ''restaurant'']] \<and>
      favorite_count q1 ''happy'' ''Diner'' = 1 \<and>
      favorites_for_mood q1
        [\<lparr>name = ''Diner'', lat = 47, lon = 8, distance = 2,
           tags = [''amenity'' \<mapsto> ''restaurant'']\<rparr>] ''happy'' = (q1, None))"
proof -
  let ?q = "\<lparr>history = Some [],
       favorites = Some [''happy'' \<mapsto> [Fav (Some ''Central Perk'') [''amenity'' \<mapsto> ''cafe'']]],
       mood_usage = Some [''happy'' \<mapsto> 1],
       place_usage = Some [''Central Perk'' \<mapsto> (1::int)]\<rparr>"
  let ?diner = "\<lparr>name = ''Diner'', lat = 47, lon = 8, distance = 2,
         tags = [''amenity'' \<mapsto> ''restaurant'']\<rparr>"
  have h1: "\<forall>m n. favorite_count empty_profile m n \<le> 1"
    by (simp add: favorite_count_def fav_list_of_def empty_profile_def fav_names_simps)
  have h2: "apply_operations rejects_closing_tag empty_profile
     [Favorites [''happy'']
        [\<lparr>name = ''Central Perk'', lat = 47, lon = 8, distance = 1,
           tags = [''amenity'' \<mapsto> ''cafe'']\<rparr>],
      RemoveFavorite ''sad'' ''Green Park''] = (?q, None)"
    by (simp add: favorites_for_mood_def MoodInPlace_def MOOD_TAGS_EXTENDED_def
        update_usage_counters_def remove_favorite_def empty_profile_def Let_def)
  have h3: "MoodInPlace (tags ?diner) ''happy'' = Inr True"
    by (simp add: MoodInPlace_def MOOD_TAGS_EXTENDED_def)
  obtain q1 y where ins0: "favorites_for_mood ?q [?diner] ''happy'' = (q1, y)"
    by (cases "favorites_for_mood ?q [?diner] ''happy''")
  have "snd (favorites_for_mood ?q [?diner] ''happy'') = None"
    by (simp add: favorites_for_mood_def MoodInPlace_def MOOD_TAGS_EXTENDED_def Let_def)
  with ins0 have h4: "favorites_for_mood ?q [?diner] ''happy'' = (q1, None)" by simp
  have l: "fav_list_of ?q ''happy'' = [Fav (Some ''Central Perk'') [''amenity'' \<mapsto> ''cafe'']]"
    by (simp add: fav_list_of_def)
  from favorites_at_most_one_per_mood_and_name [OF h1 h2 h3 h4, of "''happy''" "''Diner''"]
  have "fav_list_of q1 ''happy'' =
        [Fav (Some ''Central Perk'') [''amenity'' \<mapsto> ''cafe''],
         Fav (Some ''Diner'') [''amenity'' \<mapsto> ''restaurant'']] \<and>
      favorite_count q1 ''happy'' ''Diner'' = 1 \<and>
      favorites_for_mood q1 [?diner] ''happy'' = (q1, None)"
    by (simp add: l fav_names_simps)
  with h2 h4 show ?thesis by blast
qed

end
